theory Spec2Isabelle
  imports Complex_Main
begin

unbundle bit_operations_syntax

section \<open>Conventions of the embedding\<close>

text \<open>
  The TypeScript sources compute with \<open>number\<close>, the IEEE 754 double. Values that the
  program only ever uses as counts or indices (incident points, lap numbers, car slots,
  customer ids) are modelled as \<open>int\<close>: below 2^53 the doubles hold them exactly. A value
  that carries a fraction (an average, a timing fraction, a risk score, a safety rating,
  a gap in seconds) is modelled as the real number that the double denotes, and every
  arithmetic operation on such values rounds its exact result to the nearest double with
  the function \<open>double\<close> below, as the processor does. A function that computes with a
  fractional argument first reads it as the double nearest to it, as a literal of the
  source is read; on an argument that is a double this changes nothing.

  An exception that \<^verbatim>\<open>analyzeDriver\<close> raises or lets propagate is a value \<open>Inl e\<close> of a
  sum type; a request of the data client that fails answers \<open>None\<close>. Global variables of
  a module are the fields of a state record that the functions take and return, and what
  a function prints or plays is a list of effects returned with the state.

  Names are those of the source. Where two records of the source share a field name,
  or a name is taken by the library, the later one carries a prefix or suffix
  (\<open>profile_riskLevel\<close>, \<open>user_sr\<close>, \<open>total_count\<close>, \<open>MODERATE_approach\<close>).
\<close>

subsection \<open>The arithmetic of the host language\<close>

text \<open>
  The binary exponent of a positive real \<open>a\<close>: the \<open>e\<close> with \<open>2^e \<le> a < 2^(e+1)\<close>,
  found by halving down to below 2 or doubling up to at least 1.
\<close>

function halvings :: "real \<Rightarrow> nat" where
  "halvings x = (if 2 \<le> x then Suc (halvings (x / 2)) else 0)"
  by pat_completeness auto
termination
proof (relation "measure (\<lambda>x. nat \<lfloor>x\<rfloor>)")
  show "wf (measure (\<lambda>x::real. nat \<lfloor>x\<rfloor>))" by simp
next
  fix x :: real
  assume x: "2 \<le> x"
  have "\<lfloor>x / 2\<rfloor> \<le> \<lfloor>x - 1\<rfloor>"
    by (rule floor_mono) (use x in linarith)
  moreover have "2 \<le> \<lfloor>x\<rfloor>"
    using x by (simp add: le_floor_iff)
  ultimately show "(x / 2, x) \<in> measure (\<lambda>x. nat \<lfloor>x\<rfloor>)"
    by simp
qed

declare halvings.simps [simp del]

function doublings :: "real \<Rightarrow> nat" where
  "doublings x = (if 0 < x \<and> x < 1 then Suc (doublings (x * 2)) else 0)"
  by pat_completeness auto
termination
proof (relation "measure (\<lambda>x. nat \<lfloor>1 / x\<rfloor>)")
  show "wf (measure (\<lambda>x::real. nat \<lfloor>1 / x\<rfloor>))" by simp
next
  fix x :: real
  assume x: "0 < x \<and> x < 1"
  then have y: "1 < 1 / x" by simp
  have h: "1 / (x * 2) = (1 / x) / 2" by simp
  define y where "y = 1 / x"
  have y1: "1 < y" using y by (simp add: y_def)
  have "\<lfloor>y / 2\<rfloor> < \<lfloor>y\<rfloor>"
  proof (cases "2 \<le> y")
    case True
    have "y / 2 \<le> y - 1" using True by linarith
    then have "\<lfloor>y / 2\<rfloor> \<le> \<lfloor>y - 1\<rfloor>"
      by (rule floor_mono)
    then show ?thesis by simp
  next
    case False
    then have "y / 2 < 1" by linarith
    moreover have "0 \<le> y / 2" using y1 by linarith
    ultimately have "\<lfloor>y / 2\<rfloor> = 0" by (simp add: floor_eq_iff)
    moreover have "1 \<le> \<lfloor>y\<rfloor>" using y1 by (simp add: le_floor_iff)
    ultimately show ?thesis by simp
  qed
  moreover have "0 < \<lfloor>y\<rfloor>" using y1 by (simp add: less_floor_iff)
  ultimately have "\<lfloor>(1 / x) / 2\<rfloor> < \<lfloor>1 / x\<rfloor>" "0 < \<lfloor>1 / x\<rfloor>"
    by (simp_all add: y_def)
  then show "(x * 2, x) \<in> measure (\<lambda>x. nat \<lfloor>1 / x\<rfloor>)"
    unfolding h by simp
qed

declare doublings.simps [simp del]

definition exponent :: "real \<Rightarrow> int" where
  "exponent a = (if 1 \<le> a then int (halvings a) else - int (doublings a))"

text \<open>Rounding to the nearest integer, a tie going to the even one.\<close>

definition round_half_even :: "real \<Rightarrow> int" where
  "round_half_even y =
     (let f = \<lfloor>y\<rfloor>; r = y - real_of_int f
      in if r < 1 / 2 then f else if r > 1 / 2 then f + 1 else if even f then f else f + 1)"

text \<open>
  The double nearest to a real number (round to nearest, ties to even): the multiple of
  the unit in the last place, \<open>2^(e - 52)\<close> for a number of binary exponent \<open>e\<close>, that
  is nearest. The range of the exponent is not bounded here: the function is that of
  the processor for magnitudes from 2^-1022 up to the largest double, and no overflow
  to infinity and no subnormal number is modelled. The quantities of this program
  (ratings, averages, percentages, seconds) are far inside that range.
\<close>

definition double :: "real \<Rightarrow> real" where
  "double x =
     (if x = 0 then 0
      else
        let a = \<bar>x\<bar>;
            ulp = 2 powi (exponent a - 52)
        in sgn x * (real_of_int (round_half_even (a / ulp)) * ulp))"

text \<open>
  \<^verbatim>\<open>Math.round(x)\<close>: the nearest integer, ties towards plus infinity. The result is
  exact (it is not computed by an addition that rounds).
\<close>

definition Math_round :: "real \<Rightarrow> int" where
  "Math_round x = \<lfloor>x + 1 / 2\<rfloor>"

section \<open>Risk analysis (src/src/analysis/riskAnalysis.ts)\<close>

record IncidentTiming =
  lap1_2 :: real
  midRace :: real
  finalLap :: real

record IncidentTypeBreakdown =
  contact4x :: int
  lostControl2x :: int
  offTrack1x :: int
  total_count :: int

datatype RiskLevel = LOW | MODERATE | HIGH

subsection \<open>estimateIncidentTypes\<close>

record IncidentEstimate =
  x4 :: int
  x2 :: int
  x1 :: int

text \<open>
  The first loop of \<^verbatim>\<open>estimateIncidentTypes\<close>,
  \<^verbatim>\<open>while (remaining >= 4) { x4++; remaining -= 4; }\<close>,
  as a function of the two variables it updates.
\<close>

function while_contact :: "int \<Rightarrow> int \<Rightarrow> int \<times> int" where
  "while_contact remaining n4 =
     (if remaining \<ge> 4 then while_contact (remaining - 4) (n4 + 1) else (remaining, n4))"
  by pat_completeness auto
termination
  by (relation "measure (\<lambda>(remaining, n4). nat remaining)") auto

declare while_contact.simps [simp del]

text \<open>The second loop, \<^verbatim>\<open>while (remaining >= 2) { x2++; remaining -= 2; }\<close>.\<close>

function while_spin :: "int \<Rightarrow> int \<Rightarrow> int \<times> int" where
  "while_spin remaining n2 =
     (if remaining \<ge> 2 then while_spin (remaining - 2) (n2 + 1) else (remaining, n2))"
  by pat_completeness auto
termination
  by (relation "measure (\<lambda>(remaining, n2). nat remaining)") auto

declare while_spin.simps [simp del]

definition estimateIncidentTypes :: "int \<Rightarrow> IncidentEstimate" where
  "estimateIncidentTypes lapDelta =
     (if lapDelta \<le> 0 then \<lparr>x4 = 0, x2 = 0, x1 = 0\<rparr>
      else
        (case while_contact lapDelta 0 of (remaining, n4) \<Rightarrow>
          (case while_spin remaining 0 of (remaining', n2) \<Rightarrow>
             \<lparr>x4 = n4, x2 = n2, x1 = remaining'\<rparr>)))"

text \<open>
  The decomposition as the specification words it: take away 4 as long as at least 4
  remains, counting one heavy contact each time; then take away 2 as long as at least 2
  remains, counting one loss of control each time; what is left is the off-track count.
  Written over the naturals, by recursion on what remains.
\<close>

fun greedy_decomposition :: "nat \<Rightarrow> nat \<times> nat \<times> nat" where
  "greedy_decomposition remaining =
     (if remaining \<ge> 4
      then (case greedy_decomposition (remaining - 4) of (c4, c2, c1) \<Rightarrow> (Suc c4, c2, c1))
      else if remaining \<ge> 2
      then (case greedy_decomposition (remaining - 2) of (c4, c2, c1) \<Rightarrow> (c4, Suc c2, c1))
      else (0, 0, remaining))"

declare greedy_decomposition.simps [simp del]

subsection \<open>The collaborator: the historical-data client\<close>

text \<open>
  Of \<^verbatim>\<open>IRacingRecentRace\<close>, \<^verbatim>\<open>IRacingLapData\<close> and the driver record, the fields that
  the analysis reads. \<open>sessionStartTime\<close> is the time stamp as
  \<^verbatim>\<open>new Date(...).getTime()\<close> reads it, in milliseconds.
\<close>

record IRacingRecentRace =
  subsessionId :: int
  sessionStartTime :: int
  incidents :: int
  oldSubLevel :: int
  newSubLevel :: int

record IRacingLapData =
  lapNumber :: int
  incident :: int

record IRacingLicense =
  categoryId :: int
  irating :: int
  safetyRating :: real
  groupName :: string

record IRacingDriverInfo =
  displayName :: string
  licenses :: "IRacingLicense list"

text \<open>
  What a call can fail with: the error that \<^verbatim>\<open>analyzeDriver\<close> itself throws, whose
  message \<^verbatim>\<open>No recent races found for driver ${custId}\<close> names the driver, and the
  failure of a request to the data API.
\<close>

datatype error = NoRecentRacesFound int | RequestFailed

text \<open>
  The client, as the answers it gives. \<^verbatim>\<open>searchRaceResults\<close> and \<^verbatim>\<open>getDriverInfo\<close>
  catch every failure themselves (returning \<^verbatim>\<open>[]\<close> and \<^verbatim>\<open>null\<close>);
  \<^verbatim>\<open>getRecentRaces\<close> and \<^verbatim>\<open>getLapData\<close> let a failed request propagate: their
  answer is \<open>None\<close> then.
\<close>

record IRacingClient =
  searchRaceResults :: "int \<Rightarrow> int \<Rightarrow> IRacingRecentRace list"
  getRecentRaces :: "int \<Rightarrow> IRacingRecentRace list option"
  getDriverInfo :: "int \<Rightarrow> IRacingDriverInfo option"
  getLapData :: "int \<Rightarrow> int \<Rightarrow> IRacingLapData list option"

subsection \<open>analyzeIncidentTiming\<close>

text \<open>The six counters that the two nested loops of \<^verbatim>\<open>analyzeIncidentTiming\<close> update.\<close>

record Counters =
  lap1_2Incidents :: int
  midRaceIncidents :: int
  finalLapIncidents :: int
  contact4x_count :: int
  lostControl2x_count :: int
  offTrack1x_count :: int

text \<open>
  The body of \<^verbatim>\<open>for (let i = 1; i < lapData.length; i++)\<close> for one \<open>i\<close>:
  \<open>prev\<close> is \<^verbatim>\<open>lapData[i - 1]\<close> and \<open>cur\<close> is \<^verbatim>\<open>lapData[i]\<close>.
\<close>

definition lapStep :: "int \<Rightarrow> IRacingLapData \<Rightarrow> IRacingLapData \<Rightarrow> Counters \<Rightarrow> Counters" where
  "lapStep totalLaps prev cur k =
     (let lapIncidents = incident cur - incident prev in
      if lapIncidents \<le> 0 then k
      else
        let k' = (if lapNumber cur \<le> 2
                  then k\<lparr>lap1_2Incidents := lap1_2Incidents k + lapIncidents\<rparr>
                  else if lapNumber cur \<ge> totalLaps - 1
                  then k\<lparr>finalLapIncidents := finalLapIncidents k + lapIncidents\<rparr>
                  else k\<lparr>midRaceIncidents := midRaceIncidents k + lapIncidents\<rparr>);
            types = estimateIncidentTypes lapIncidents
        in k'\<lparr>contact4x_count := contact4x_count k' + x4 types,
              lostControl2x_count := lostControl2x_count k' + x2 types,
              offTrack1x_count := offTrack1x_count k' + x1 types\<rparr>)"

fun lapLoop :: "int \<Rightarrow> IRacingLapData \<Rightarrow> IRacingLapData list \<Rightarrow> Counters \<Rightarrow> Counters" where
  "lapLoop totalLaps prev [] k = k"
| "lapLoop totalLaps prev (cur # rest) k = lapLoop totalLaps cur rest (lapStep totalLaps prev cur k)"

text \<open>
  The loop over the races. A failed \<^verbatim>\<open>getLapData\<close> is caught and the race skipped, and
  so is a race with no lap data.
\<close>

fun raceLoop :: "IRacingClient \<Rightarrow> int \<Rightarrow> IRacingRecentRace list \<Rightarrow> Counters \<Rightarrow> Counters" where
  "raceLoop client cust [] k = k"
| "raceLoop client cust (race # rest) k =
     (case getLapData client (subsessionId race) cust of
        None \<Rightarrow> raceLoop client cust rest k
      | Some lapData \<Rightarrow>
          (case lapData of
             [] \<Rightarrow> raceLoop client cust rest k
           | first # others \<Rightarrow>
               raceLoop client cust rest (lapLoop (int (length lapData)) first others k)))"

definition noIncidents :: Counters where
  "noIncidents = \<lparr>lap1_2Incidents = 0, midRaceIncidents = 0, finalLapIncidents = 0,
     contact4x_count = 0, lostControl2x_count = 0, offTrack1x_count = 0\<rparr>"

record IncidentAnalysisResult =
  timing :: IncidentTiming
  types :: IncidentTypeBreakdown

text \<open>
  \<^verbatim>\<open>Math.round((x / totalTiming) * 100) / 100\<close>, the expression that the source writes
  for each of the three windows: a division, a multiplication and a division of doubles
  around the rounding to an integer.
\<close>

definition roundedShare :: "int \<Rightarrow> int \<Rightarrow> real" where
  "roundedShare x totalTiming =
     double (real_of_int
       (Math_round (double (double (real_of_int x / real_of_int totalTiming) * 100))) / 100)"

definition analyzeIncidentTiming ::
  "IRacingClient \<Rightarrow> IRacingRecentRace list \<Rightarrow> int \<Rightarrow> IncidentAnalysisResult" where
  "analyzeIncidentTiming client races cust =
     (let k = raceLoop client cust races noIncidents;
          totalTiming = lap1_2Incidents k + midRaceIncidents k + finalLapIncidents k;
          totalTypes = contact4x_count k + lostControl2x_count k + offTrack1x_count k
      in \<lparr>timing =
            (if totalTiming = 0
             then \<lparr>lap1_2 = double 0.33, midRace = double 0.34, finalLap = double 0.33\<rparr>
             else \<lparr>lap1_2 = roundedShare (lap1_2Incidents k) totalTiming,
                   midRace = roundedShare (midRaceIncidents k) totalTiming,
                   finalLap = roundedShare (finalLapIncidents k) totalTiming\<rparr>),
          types = \<lparr>contact4x = contact4x_count k, lostControl2x = lostControl2x_count k,
                    offTrack1x = offTrack1x_count k, total_count = totalTypes\<rparr>\<rparr>)"

subsection \<open>calculateSRTrend\<close>

datatype SRTrend = improving | stable | declining

definition calculateSRTrend :: "IRacingRecentRace list \<Rightarrow> SRTrend" where
  "calculateSRTrend races =
     (if length races < 3 then stable
      else
        let recentRaces = take 5 races;
            srChanges = map (\<lambda>race. newSubLevel race - oldSubLevel race) recentRaces;
            avgChange = double (real_of_int (sum_list srChanges) / real (length srChanges))
        in if avgChange > 5 then improving
           else if avgChange < - 5 then declining
           else stable)"

subsection \<open>calculateRiskScore\<close>

definition calculateRiskScore :: "real \<Rightarrow> IncidentTiming \<Rightarrow> real" where
  "calculateRiskScore avgIncidents tm =
     (let a = double avgIncidents;
          early = double (lap1_2 tm);
          late = double (finalLap tm);
          baseScore =
            (if a \<le> 2 then double (a * 1.5)
             else if a \<le> 5 then double (3 + double (double (a - 2) * 1.0))
             else double (6 + min (double (double (a - 5) * double 0.8)) 4));
          timingModifier = 0;
          timingModifier =
            (if early > double 0.4 then double (timingModifier + 1.5)
             else if early > double 0.3 then double (timingModifier + 0.5)
             else timingModifier);
          timingModifier =
            (if late > double 0.3 then double (timingModifier + 1.0)
             else if late > double 0.25 then double (timingModifier + 0.5)
             else timingModifier);
          finalScore = min (double (baseScore + timingModifier)) 10.0
      in double (real_of_int (Math_round (double (finalScore * 10))) / 10))"

text \<open>
  The score as the specification words it, in the arithmetic of the program: a piecewise
  base score of the average \<open>a\<close>, an additive timing modifier, and the minimum of their
  sum and 10, rounded to one decimal.
\<close>

definition spec_base :: "real \<Rightarrow> real" where
  "spec_base a =
     (if a \<le> 2 then double (a * 1.5)
      else if a \<le> 5 then double (3 + double (a - 2))
      else double (6 + min (double (double (a - 5) * double 0.8)) 4))"

definition spec_modifier :: "IncidentTiming \<Rightarrow> real" where
  "spec_modifier tm =
     double
       ((if double (lap1_2 tm) > double 0.4 then 1.5
         else if double (lap1_2 tm) > double 0.3 then 0.5 else 0)
        + (if double (finalLap tm) > double 0.3 then 1.0
           else if double (finalLap tm) > double 0.25 then 0.5 else 0))"

definition round_one_decimal :: "real \<Rightarrow> real" where
  "round_one_decimal x = double (real_of_int \<lfloor>double (x * 10) + 1 / 2\<rfloor> / 10)"

subsection \<open>classifyRisk\<close>

definition classifyRisk :: "real \<Rightarrow> RiskLevel" where
  "classifyRisk riskScore =
     (if riskScore < 4 then LOW else if riskScore < 7 then MODERATE else HIGH)"

subsection \<open>analyzeDriver\<close>

text \<open>\<^verbatim>\<open>xs.slice(0, end)\<close>: a negative end index counts from the end of the array.\<close>

definition slice0 :: "'a list \<Rightarrow> int \<Rightarrow> 'a list" where
  "slice0 xs e = (if e < 0 then take (nat (int (length xs) + e)) xs else take (nat e) xs)"

text \<open>
  The profile that \<^verbatim>\<open>analyzeDriver\<close> returns, without its three text fields (the display
  name, the pattern strings and the recommendation sentence), which are formatted from
  the fields below and cannot fail.
\<close>

record DriverRiskProfile =
  profile_custId :: int
  profile_irating :: int
  profile_licenseClass :: string
  profile_sr :: real
  avgIncidentsPerRace :: real
  totalRacesAnalyzed :: int
  profile_recentRaces :: int
  profile_recentAvgIncidents :: real
  profile_lastRaceIncidents :: int
  incidentTiming :: IncidentTiming
  profile_incidentTypes :: IncidentTypeBreakdown
  profile_riskScore :: real
  srTrend :: SRTrend
  profile_riskLevel :: RiskLevel

text \<open>
  The part of \<^verbatim>\<open>analyzeDriver\<close> after the races have been found and the check on the
  races to analyze has passed: the profile built from all the races found (\<open>races\<close>) and
  from those kept for the lap-by-lap analysis (\<open>racesToAnalyze\<close>). Nothing in it throws:
  \<^verbatim>\<open>getDriverInfo\<close> answers \<^verbatim>\<open>null\<close> on a failure, and \<open>analyzeIncidentTiming\<close> skips a
  race whose lap data cannot be read.
\<close>

definition buildProfile ::
  "IRacingClient \<Rightarrow> int \<Rightarrow> int \<Rightarrow> IRacingRecentRace list \<Rightarrow> IRacingRecentRace list
     \<Rightarrow> DriverRiskProfile" where
  "buildProfile client sevenDaysAgo cust races racesToAnalyze =
     (let totalRacesIn30Days = int (length races);
          driverInfo = getDriverInfo client cust;
          totalIncidents = sum_list (map incidents races);
          avgIncidents = double (real_of_int totalIncidents / real (length races));
          recentRacesData = filter (\<lambda>race. sessionStartTime race \<ge> sevenDaysAgo) races;
          recentRaceCount = int (length recentRacesData);
          recentAvg =
            (if recentRaceCount > 0
             then double (real_of_int (sum_list (map incidents recentRacesData))
                            / real_of_int recentRaceCount)
             else 0);
          lastRace = (case races of [] \<Rightarrow> 0 | r # _ \<Rightarrow> incidents r);
          incidentAnalysis = analyzeIncidentTiming client racesToAnalyze cust;
          trend = calculateSRTrend racesToAnalyze;
          score = calculateRiskScore avgIncidents (timing incidentAnalysis);
          lics = (case driverInfo of None \<Rightarrow> [] | Some info \<Rightarrow> licenses info);
          license =
            (case find (\<lambda>l. categoryId l = 5) lics of
               Some l \<Rightarrow> Some l
             | None \<Rightarrow>
                 (case find (\<lambda>l. categoryId l = 6) lics of
                    Some l \<Rightarrow> Some l
                  | None \<Rightarrow> find (\<lambda>l. irating l > 0) lics))
      in \<lparr>profile_custId = cust,
          profile_irating = (case license of None \<Rightarrow> 0 | Some l \<Rightarrow> irating l),
          profile_licenseClass =
            (case license of
               None \<Rightarrow> ''Unknown''
             | Some l \<Rightarrow> if groupName l = [] then ''Unknown'' else groupName l),
          profile_sr = (case license of None \<Rightarrow> 0 | Some l \<Rightarrow> double (safetyRating l)),
          avgIncidentsPerRace = double (real_of_int (Math_round (double (avgIncidents * 10))) / 10),
          totalRacesAnalyzed = totalRacesIn30Days,
          profile_recentRaces = recentRaceCount,
          profile_recentAvgIncidents = double (real_of_int (Math_round (double (recentAvg * 10))) / 10),
          profile_lastRaceIncidents = lastRace,
          incidentTiming = timing incidentAnalysis,
          profile_incidentTypes = types incidentAnalysis,
          profile_riskScore = score,
          srTrend = trend,
          profile_riskLevel = classifyRisk score\<rparr>)"

text \<open>
  \<^verbatim>\<open>analyzeDriver(client, custId, numRaces)\<close>. The two readings of the clock, moved back
  by 30 and by 7 days, are the parameters \<open>thirtyDaysAgo\<close> and \<open>sevenDaysAgo\<close>. The
  search result is sorted most recent first (the sort is stable); the fallback result is
  used as it comes. A failed fallback request is passed on to the caller.
\<close>

definition analyzeDriver ::
  "IRacingClient \<Rightarrow> int \<Rightarrow> int \<Rightarrow> int \<Rightarrow> int \<Rightarrow> error + DriverRiskProfile" where
  "analyzeDriver client thirtyDaysAgo sevenDaysAgo cust numRaces =
     (let found = sort_key (\<lambda>race. - sessionStartTime race)
                    (searchRaceResults client cust thirtyDaysAgo)
      in case (if length found = 0 then getRecentRaces client cust else Some found) of
           None \<Rightarrow> Inl RequestFailed
         | Some races \<Rightarrow>
             let racesToAnalyze = slice0 races numRaces
             in if length racesToAnalyze = 0 then Inl (NoRecentRacesFound cust)
                else Inr (buildProfile client sevenDaysAgo cust races racesToAnalyze))"

section \<open>Grid analysis (analysis/gridAnalysis.ts, in src/unnamed/part_001)\<close>

record UserProfile =
  user_custId :: "int option"
  user_sr :: real
  srGoal :: real
  user_irating :: int
  startingPosition :: "int option"
  goalDescription :: string

datatype Recommendation = CONSERVATIVE | MODERATE_approach | AGGRESSIVE

definition generateGridRecommendation :: "real \<Rightarrow> int \<Rightarrow> UserProfile \<Rightarrow> Recommendation" where
  "generateGridRecommendation overallRisk highRiskCount userProfile =
     (let risk = double overallRisk;
          srBuffer = double (double (user_sr userProfile) - double (srGoal userProfile));
          srAtRisk = (srBuffer < double 0.2)
      in if srAtRisk \<and> risk \<ge> 5 then CONSERVATIVE
         else if risk \<ge> 7 \<or> highRiskCount \<ge> 5 then CONSERVATIVE
         else if risk \<ge> 5 \<or> highRiskCount \<ge> 3 then MODERATE_approach
         else AGGRESSIVE)"

section \<open>The session monitor (src/src/scripts/racesafe.ts)\<close>

subsection \<open>Alert configuration\<close>

text \<open>
  One pair of switches per session type. The second field is \<^verbatim>\<open>incident\<close> in the source;
  the name is taken by the lap record above.
\<close>

record AlertSwitches =
  danger :: bool
  incident_switch :: bool

record AlertConfig =
  practice :: AlertSwitches
  qualify :: AlertSwitches
  race :: AlertSwitches
  warmup :: AlertSwitches

text \<open>The eight environment variables that \<^verbatim>\<open>alertConfig\<close> reads; \<open>None\<close> is an unset variable.\<close>

record Environment =
  ALERTS_PRACTICE_DANGER :: "string option"
  ALERTS_PRACTICE_INCIDENT :: "string option"
  ALERTS_QUALIFY_DANGER :: "string option"
  ALERTS_QUALIFY_INCIDENT :: "string option"
  ALERTS_RACE_DANGER :: "string option"
  ALERTS_RACE_INCIDENT :: "string option"
  ALERTS_WARMUP_DANGER :: "string option"
  ALERTS_WARMUP_INCIDENT :: "string option"

text \<open>\<^verbatim>\<open>String.prototype.toLowerCase\<close>, on the letters of ASCII.\<close>

definition toLowerCase_char :: "char \<Rightarrow> char" where
  "toLowerCase_char c =
     (case map_of (zip ''ABCDEFGHIJKLMNOPQRSTUVWXYZ'' ''abcdefghijklmnopqrstuvwxyz'') c of
        Some l \<Rightarrow> l
      | None \<Rightarrow> c)"

definition toLowerCase :: "string \<Rightarrow> string" where
  "toLowerCase s = map toLowerCase_char s"

text \<open>\<^verbatim>\<open>process.env.X?.toLowerCase() !== 'off'\<close>: an unset variable gives \<^verbatim>\<open>undefined\<close>, which is not \<^verbatim>\<open>'off'\<close>.\<close>

definition envSwitch :: "string option \<Rightarrow> bool" where
  "envSwitch v = (case v of None \<Rightarrow> True | Some s \<Rightarrow> toLowerCase s \<noteq> ''off'')"

definition alertConfig :: "Environment \<Rightarrow> AlertConfig" where
  "alertConfig env =
     \<lparr>practice = \<lparr>danger = envSwitch (ALERTS_PRACTICE_DANGER env),
                   incident_switch = envSwitch (ALERTS_PRACTICE_INCIDENT env)\<rparr>,
      qualify = \<lparr>danger = envSwitch (ALERTS_QUALIFY_DANGER env),
                  incident_switch = envSwitch (ALERTS_QUALIFY_INCIDENT env)\<rparr>,
      race = \<lparr>danger = envSwitch (ALERTS_RACE_DANGER env),
               incident_switch = envSwitch (ALERTS_RACE_INCIDENT env)\<rparr>,
      warmup = \<lparr>danger = envSwitch (ALERTS_WARMUP_DANGER env),
                 incident_switch = envSwitch (ALERTS_WARMUP_INCIDENT env)\<rparr>\<rparr>"

subsection \<open>playAlert\<close>

datatype AlertType = Danger | Warning | Incident | Clear

datatype SessionType = Practice | Qualify | Race | Warmup

text \<open>The three commands that \<^verbatim>\<open>playAlert\<close> can hand to \<^verbatim>\<open>exec\<close>.\<close>

datatype SystemSound = ExclamationTwice | Beep | Asterisk

text \<open>
  \<^verbatim>\<open>alertConfig[currentSessionType]\<close>. Each of the four entries is an object, so the
  fallback \<^verbatim>\<open>|| alertConfig.race\<close> is never taken.
\<close>

definition sessionConfig :: "AlertConfig \<Rightarrow> SessionType \<Rightarrow> AlertSwitches" where
  "sessionConfig cfg st =
     (case st of Practice \<Rightarrow> practice cfg | Qualify \<Rightarrow> qualify cfg
               | Race \<Rightarrow> race cfg | Warmup \<Rightarrow> warmup cfg)"

text \<open>
  \<^verbatim>\<open>playAlert(type)\<close>, as the sound it starts: \<open>None\<close> when it returns without calling
  \<^verbatim>\<open>exec\<close>. The configuration and the current session type are globals of the source.
\<close>

definition playAlert :: "AlertConfig \<Rightarrow> SessionType \<Rightarrow> AlertType \<Rightarrow> SystemSound option" where
  "playAlert cfg currentType ty =
     (if ty = Danger \<and> \<not> danger (sessionConfig cfg currentType) then None
      else if ty = Incident \<and> \<not> incident_switch (sessionConfig cfg currentType) then None
      else (case ty of
              Danger \<Rightarrow> Some ExclamationTwice
            | Warning \<Rightarrow> Some Beep
            | Incident \<Rightarrow> Some Asterisk
            | Clear \<Rightarrow> None))"

subsection \<open>Session state\<close>

record SessionDriver =
  driver_carIdx :: int
  driver_custId :: int
  driver_name :: string
  driver_iRating :: int
  licenseLevel :: string
  driver_carNumber :: string

record AnalyzedDriver =
  carIdx :: int
  carNumber :: string
  custId :: int
  name :: string
  sr :: string
  licenseClass :: string
  iRating :: int
  totalRaces :: int
  recentRaces :: int
  avgIncidents :: real
  recentAvgIncidents :: real
  lastRaceIncidents :: int
  incidentTypes :: IncidentTypeBreakdown
  riskScore :: real
  riskLevel :: string
  patterns :: "string list"
  isMe :: bool

datatype Direction = AHEAD | BEHIND

text \<open>
  A gap is \<open>None\<close> where the source computes \<^verbatim>\<open>NaN\<close> (a car slot with no entry in the
  position array); every comparison with it is false.
\<close>

record NearbyDriver =
  driver :: AnalyzedDriver
  gap :: "real option"
  direction :: Direction
  sessionIncidents :: int

datatype SessionPhase = WAITING | CONNECTING | PRE_RACE | RACING | POST_RACE

text \<open>
  The mutable globals of the module. The two \<^verbatim>\<open>Map\<close>s that the monitor iterates are
  lists of key and value in insertion order; \<open>tokenRefreshInterval\<close> and \<open>iracingSDK\<close>
  are handles.
\<close>

record SessionContext =
  client :: "IRacingClient option"
  authenticated :: bool
  sessionDrivers :: "(int \<times> SessionDriver) list"
  analyzedDrivers :: "(int \<times> AnalyzedDriver) list"
  myCarIdx :: int
  currentPhase :: SessionPhase
  preRaceAnalysisComplete :: bool
  currentSessionType :: SessionType
  driversInDangerZone :: "int set"
  tokenRefreshInterval :: "nat option"
  trackName :: string
  seriesName :: string
  mySessionIncidents :: int
  lastKnownIncidents :: int
  driverSessionIncidents :: "int \<Rightarrow> int option"
  iracingSDK :: "nat option"
  isRunning :: bool
  isServiceMode :: bool

definition DANGER_ZONE_THRESHOLD :: real where
  "DANGER_ZONE_THRESHOLD = 1.5"

text \<open>The values that the declarations of the globals give them when the module loads.\<close>

definition initialState :: SessionContext where
  "initialState =
     \<lparr>client = None, authenticated = False, sessionDrivers = [], analyzedDrivers = [],
      myCarIdx = - 1, currentPhase = WAITING, preRaceAnalysisComplete = False,
      currentSessionType = Race, driversInDangerZone = {}, tokenRefreshInterval = None,
      trackName = [], seriesName = [], mySessionIncidents = 0, lastKnownIncidents = - 1,
      driverSessionIncidents = Map.empty, iracingSDK = None, isRunning = True,
      isServiceMode = False\<rparr>"

subsection \<open>resetSessionState\<close>

text \<open>
  Returns the new state and the timers handed to \<^verbatim>\<open>clearInterval\<close>.
\<close>

definition resetSessionState :: "SessionContext \<Rightarrow> SessionContext \<times> nat list" where
  "resetSessionState s =
     (let s1 = s\<lparr>sessionDrivers := [], analyzedDrivers := [],
                  driverSessionIncidents := Map.empty, driversInDangerZone := {}\<rparr>;
          s2 = s1\<lparr>myCarIdx := - 1, currentPhase := WAITING, currentSessionType := Race,
                   preRaceAnalysisComplete := False\<rparr>;
          s3 = s2\<lparr>trackName := [], seriesName := []\<rparr>;
          s4 = s3\<lparr>mySessionIncidents := 0, lastKnownIncidents := - 1\<rparr>
      in case tokenRefreshInterval s4 of
           Some timer \<Rightarrow> (s4\<lparr>tokenRefreshInterval := None\<rparr>, [timer])
         | None \<Rightarrow> (s4, []))"

subsection \<open>displayRaceStatus\<close>

text \<open>
  What the monitor puts out: the summary at the chequered flag, the incident alert (the
  new points, the session total and the sound of \<^verbatim>\<open>playAlert('incident')\<close>), the
  status line with its closest car ahead and behind, and the danger alert for one threat
  (with the sound of \<^verbatim>\<open>playAlert('danger')\<close>). The wording and the colours of the
  text are left out.
\<close>

datatype Effect =
    CheckeredSummary int
  | IncidentAlert int int "SystemSound option"
  | StatusLine int int int int "NearbyDriver option" "NearbyDriver option"
  | DangerAlert NearbyDriver "SystemSound option"

text \<open>\<^verbatim>\<open>threat.gap < DANGER_ZONE_THRESHOLD\<close>.\<close>

definition gapBelowThreshold :: "NearbyDriver \<Rightarrow> bool" where
  "gapBelowThreshold threat =
     (case gap threat of Some g \<Rightarrow> g < DANGER_ZONE_THRESHOLD | None \<Rightarrow> False)"

text \<open>
  The loop \<^verbatim>\<open>for (const threat of highRiskNearby)\<close>. It reads the tracked set of the
  state, which does not change while it runs, and builds \<^verbatim>\<open>currentlyInZone\<close> and the
  alerts.
\<close>

fun dangerLoop ::
  "AlertConfig \<Rightarrow> SessionContext \<Rightarrow> NearbyDriver list \<Rightarrow> int set \<times> Effect list
     \<Rightarrow> int set \<times> Effect list" where
  "dangerLoop cfg s [] acc = acc"
| "dangerLoop cfg s (threat # rest) (currentlyInZone, out) =
     (if gapBelowThreshold threat
      then dangerLoop cfg s rest
             (insert (carIdx (driver threat)) currentlyInZone,
              if carIdx (driver threat) \<notin> driversInDangerZone s
              then out @ [DangerAlert threat (playAlert cfg (currentSessionType s) Danger)]
              else out)
      else dangerLoop cfg s rest (currentlyInZone, out))"

definition displayRaceStatus ::
  "AlertConfig \<Rightarrow> SessionContext \<Rightarrow> int \<Rightarrow> int \<Rightarrow> NearbyDriver list \<Rightarrow> int \<Rightarrow> int
     \<Rightarrow> SessionContext \<times> Effect list" where
  "displayRaceStatus cfg s position lap nearby totalCars incidentCount =
     (let closestAhead = find (\<lambda>n. direction n = AHEAD) nearby;
          closestBehind = find (\<lambda>n. direction n = BEHIND) nearby;
          statusLine = StatusLine lap position totalCars incidentCount closestAhead closestBehind;
          highRiskNearby = filter (\<lambda>n. riskLevel (driver n) = ''HIGH'') nearby
      in case dangerLoop cfg s highRiskNearby ({}, []) of
           (currentlyInZone, alerts) \<Rightarrow>
             (s\<lparr>driversInDangerZone := currentlyInZone\<rparr>, statusLine # alerts))"

subsection \<open>handleTelemetry\<close>

text \<open>
  A telemetry sample. An array of the sample is a function from the car slot to its
  entry, \<open>None\<close> where the array or the entry is missing (\<^verbatim>\<open>undefined\<close>).
\<close>

record Telemetry =
  SessionFlags :: "int option"
  CarIdxLap :: "int \<Rightarrow> int option"
  CarIdxLapDistPct :: "int \<Rightarrow> real option"
  CarIdxPosition :: "int \<Rightarrow> int option"
  CarIdxClassPosition :: "int \<Rightarrow> int option"
  CarIdxOnPitRoad :: "int \<Rightarrow> bool option"
  PlayerCarMyIncidentCount :: "int option"

text \<open>
  The body of \<^verbatim>\<open>for (const [carIdx, analysis] of analyzedDrivers)\<close> for one entry:
  \<open>None\<close> is a \<^verbatim>\<open>continue\<close>, \<open>Some n\<close> the entry pushed to \<^verbatim>\<open>nearby\<close>.
\<close>

definition nearbyEntry ::
  "SessionContext \<Rightarrow> Telemetry \<Rightarrow> real \<Rightarrow> int \<times> AnalyzedDriver \<Rightarrow> NearbyDriver option" where
  "nearbyEntry s telemetry myLapDistPct entry =
     (case entry of (idx, analysis) \<Rightarrow>
        if idx = myCarIdx s then None
        else if (case CarIdxLap telemetry idx of Some l \<Rightarrow> l < 0 | None \<Rightarrow> False) then None
        else if (case CarIdxOnPitRoad telemetry idx of Some b \<Rightarrow> b | None \<Rightarrow> False) then None
        else
          let sessionInc = (case driverSessionIncidents s idx of Some i \<Rightarrow> i | None \<Rightarrow> 0)
          in case CarIdxLapDistPct telemetry idx of
               None \<Rightarrow>
                 Some \<lparr>driver = analysis, gap = None, direction = BEHIND,
                        sessionIncidents = sessionInc\<rparr>
             | Some pct \<Rightarrow>
                 let trackGap = double (double pct - double myLapDistPct);
                     trackGap = (if trackGap > 0.5 then double (trackGap - 1) else trackGap);
                     trackGap = (if trackGap < - 0.5 then double (trackGap + 1) else trackGap);
                     avgLapTime = 90;
                     gapSeconds = \<bar>double (trackGap * avgLapTime)\<bar>
                 in if gapSeconds > 5 then None
                    else Some \<lparr>driver = analysis, gap = Some gapSeconds,
                                direction = (if trackGap > 0 then AHEAD else BEHIND),
                                sessionIncidents = sessionInc\<rparr>)"

fun findNearby ::
  "SessionContext \<Rightarrow> Telemetry \<Rightarrow> real \<Rightarrow> (int \<times> AnalyzedDriver) list \<Rightarrow> NearbyDriver list" where
  "findNearby s telemetry myLapDistPct [] = []"
| "findNearby s telemetry myLapDistPct (entry # rest) =
     (case nearbyEntry s telemetry myLapDistPct entry of
        None \<Rightarrow> findNearby s telemetry myLapDistPct rest
      | Some n \<Rightarrow> n # findNearby s telemetry myLapDistPct rest)"

text \<open>
  \<^verbatim>\<open>nearby.sort((a, b) => a.gap - b.gap)\<close>. \<^verbatim>\<open>Array.prototype.sort\<close> belongs to the
  engine, not to the repository. The language fixes its result when the comparator is
  consistent, which it is when every gap is a number: the stable sort by gap,
  \<open>sortByGap\<close> below. With a gap that is \<^verbatim>\<open>NaN\<close> the comparator is not consistent and the
  order is left to the engine. So the handler takes the sort that the engine applies as
  its parameter \<open>engineSort\<close>; \<open>sortByGap\<close> is the instance for lists without a
  \<^verbatim>\<open>NaN\<close> gap (in it, a difference that is \<^verbatim>\<open>NaN\<close> counts as 0).
\<close>

definition gapNotAfter :: "NearbyDriver \<Rightarrow> NearbyDriver \<Rightarrow> bool" where
  "gapNotAfter a b =
     (case (gap a, gap b) of (Some x, Some y) \<Rightarrow> double (x - y) \<le> 0 | _ \<Rightarrow> True)"

fun insertByGap :: "NearbyDriver \<Rightarrow> NearbyDriver list \<Rightarrow> NearbyDriver list" where
  "insertByGap a [] = [a]"
| "insertByGap a (b # bs) = (if gapNotAfter a b then a # b # bs else b # insertByGap a bs)"

definition sortByGap :: "NearbyDriver list \<Rightarrow> NearbyDriver list" where
  "sortByGap nearby = foldr insertByGap nearby []"

text \<open>
  \<^verbatim>\<open>handleTelemetry(telemetry)\<close>: the new state and what was put out, in order.
\<close>

definition handleTelemetry ::
  "(NearbyDriver list \<Rightarrow> NearbyDriver list) \<Rightarrow> AlertConfig \<Rightarrow> SessionContext \<Rightarrow> Telemetry
     \<Rightarrow> SessionContext \<times> Effect list" where
  "handleTelemetry engineSort cfg s telemetry =
     (if myCarIdx s = - 1 \<or> length (analyzedDrivers s) = 0 then (s, [])
      else
        let sessionFlags = (case SessionFlags telemetry of Some f \<Rightarrow> f | None \<Rightarrow> 0);
            isCheckered = (sessionFlags AND 8 \<noteq> 0)
        in if isCheckered
           then (if currentPhase s \<noteq> POST_RACE
                 then (s\<lparr>currentPhase := POST_RACE\<rparr>, [CheckeredSummary (mySessionIncidents s)])
                 else (s, []))
           else
             let myIncidents = (case PlayerCarMyIncidentCount telemetry of Some i \<Rightarrow> i | None \<Rightarrow> 0);
                 (s1, out1) =
                   (if lastKnownIncidents s = - 1
                    then (s\<lparr>lastKnownIncidents := myIncidents, mySessionIncidents := 0\<rparr>, [])
                    else if myIncidents > lastKnownIncidents s
                    then
                      let newIncidents = myIncidents - lastKnownIncidents s;
                          total = mySessionIncidents s + newIncidents
                      in (s\<lparr>mySessionIncidents := total, lastKnownIncidents := myIncidents\<rparr>,
                          [IncidentAlert newIncidents total
                             (playAlert cfg (currentSessionType s) Incident)])
                    else (s, []));
                 myLapDistPct = (case CarIdxLapDistPct telemetry (myCarIdx s1) of Some p \<Rightarrow> p | None \<Rightarrow> 0);
                 myPosition = (case CarIdxClassPosition telemetry (myCarIdx s1) of Some p \<Rightarrow> p | None \<Rightarrow> 0);
                 myLap = (case CarIdxLap telemetry (myCarIdx s1) of Some l \<Rightarrow> l | None \<Rightarrow> 0)
             in if myLap < 0 then (s1, out1)
                else
                  let nearby = engineSort (findNearby s1 telemetry myLapDistPct (analyzedDrivers s1))
                  in case displayRaceStatus cfg s1 myPosition myLap nearby
                            (int (length (analyzedDrivers s1))) (mySessionIncidents s1) of
                       (s2, out2) \<Rightarrow> (s2, out1 @ out2))"

text \<open>
  The handler of the \<^verbatim>\<open>Telemetry\<close> event, and a run of it over the samples of a feed.
\<close>

definition onTelemetry ::
  "(NearbyDriver list \<Rightarrow> NearbyDriver list) \<Rightarrow> AlertConfig \<Rightarrow> SessionContext \<Rightarrow> Telemetry
     \<Rightarrow> SessionContext \<times> Effect list" where
  "onTelemetry engineSort cfg s telemetry =
     (if currentPhase s = RACING then handleTelemetry engineSort cfg s telemetry else (s, []))"

fun telemetryRun ::
  "(NearbyDriver list \<Rightarrow> NearbyDriver list) \<Rightarrow> AlertConfig \<Rightarrow> SessionContext \<Rightarrow> Telemetry list
     \<Rightarrow> SessionContext \<times> Effect list list" where
  "telemetryRun engineSort cfg s [] = (s, [])"
| "telemetryRun engineSort cfg s (telemetry # rest) =
     (case onTelemetry engineSort cfg s telemetry of
        (s', out) \<Rightarrow>
          (case telemetryRun engineSort cfg s' rest of (s'', outs) \<Rightarrow> (s'', out # outs)))"

text \<open>
  A run of \<^verbatim>\<open>displayRaceStatus\<close> over a sequence of proximity updates, each the
  arguments of one call: position, lap, the nearby cars, the number of cars and the
  incident count.
\<close>

type_synonym ProximityUpdate = "int \<times> int \<times> NearbyDriver list \<times> int \<times> int"

definition nearbyOf :: "ProximityUpdate \<Rightarrow> NearbyDriver list" where
  "nearbyOf u = (case u of (position, lap, nearby, totalCars, incidentCount) \<Rightarrow> nearby)"

definition statusTick :: "AlertConfig \<Rightarrow> SessionContext \<Rightarrow> ProximityUpdate \<Rightarrow> SessionContext \<times> Effect list" where
  "statusTick cfg s u =
     (case u of (position, lap, nearby, totalCars, incidentCount) \<Rightarrow>
        displayRaceStatus cfg s position lap nearby totalCars incidentCount)"

fun stateAfter :: "AlertConfig \<Rightarrow> SessionContext \<Rightarrow> ProximityUpdate list \<Rightarrow> SessionContext" where
  "stateAfter cfg s [] = s"
| "stateAfter cfg s (u # us) = stateAfter cfg (fst (statusTick cfg s u)) us"

text \<open>The car slots for which a list of effects holds a danger alert.\<close>

fun alertedSlots :: "Effect list \<Rightarrow> int list" where
  "alertedSlots [] = []"
| "alertedSlots (DangerAlert threat sound # rest) = carIdx (driver threat) # alertedSlots rest"
| "alertedSlots (e # rest) = alertedSlots rest"

text \<open>
  The car slots that an update shows inside the danger zone: those with an entry of risk
  level HIGH whose gap is below the threshold.
\<close>

definition slotsInZone :: "NearbyDriver list \<Rightarrow> int set" where
  "slotsInZone nearby =
     set (map (\<lambda>n. carIdx (driver n))
            (filter (\<lambda>n. riskLevel (driver n) = ''HIGH'' \<and> gapBelowThreshold n) nearby))"

section \<open>Concrete inputs\<close>

text \<open>
  A race of six lap samples with one incident point in each of the three windows: on
  lap 1 (first two laps), on lap 3 (mid-race) and on lap 5 (final lap).
\<close>

definition three_incident_laps :: "IRacingLapData list" where
  "three_incident_laps =
     [\<lparr>lapNumber = 0, incident = 0\<rparr>, \<lparr>lapNumber = 1, incident = 1\<rparr>,
      \<lparr>lapNumber = 2, incident = 1\<rparr>, \<lparr>lapNumber = 3, incident = 2\<rparr>,
      \<lparr>lapNumber = 4, incident = 2\<rparr>, \<lparr>lapNumber = 5, incident = 3\<rparr>]"

definition one_race :: IRacingRecentRace where
  "one_race = \<lparr>subsessionId = 1, sessionStartTime = 0, incidents = 3,
     oldSubLevel = 0, newSubLevel = 0\<rparr>"

text \<open>
  A client whose date-range search finds \<open>one_race\<close> for every driver and whose lap
  data for every race is the given list; and a client that finds no race at all.
\<close>

definition lap_client :: "IRacingLapData list \<Rightarrow> IRacingClient" where
  "lap_client laps =
     \<lparr>searchRaceResults = (\<lambda>c d. [one_race]), getRecentRaces = (\<lambda>c. Some []),
      getDriverInfo = (\<lambda>c. None), getLapData = (\<lambda>s c. Some laps)\<rparr>"

definition empty_client :: IRacingClient where
  "empty_client =
     \<lparr>searchRaceResults = (\<lambda>c d. []), getRecentRaces = (\<lambda>c. Some []),
      getDriverInfo = (\<lambda>c. None), getLapData = (\<lambda>s c. Some [])\<rparr>"

text \<open>A user profile with the given safety rating and goal.\<close>

definition example_user :: "real \<Rightarrow> real \<Rightarrow> UserProfile" where
  "example_user rating goal =
     \<lparr>user_custId = None, user_sr = rating, srGoal = goal, user_irating = 1200,
      startingPosition = None, goalDescription = ''Maintain SR''\<rparr>"

text \<open>
  Three settings of the environment: nothing set; all eight variables \<^verbatim>\<open>off\<close>; and only
  \<^verbatim>\<open>ALERTS_RACE_DANGER\<close> set, to the upper-case \<^verbatim>\<open>OFF\<close>.
\<close>

definition env_unset :: Environment where
  "env_unset =
     \<lparr>ALERTS_PRACTICE_DANGER = None, ALERTS_PRACTICE_INCIDENT = None,
      ALERTS_QUALIFY_DANGER = None, ALERTS_QUALIFY_INCIDENT = None,
      ALERTS_RACE_DANGER = None, ALERTS_RACE_INCIDENT = None,
      ALERTS_WARMUP_DANGER = None, ALERTS_WARMUP_INCIDENT = None\<rparr>"

definition env_all_off :: Environment where
  "env_all_off =
     \<lparr>ALERTS_PRACTICE_DANGER = Some ''off'', ALERTS_PRACTICE_INCIDENT = Some ''off'',
      ALERTS_QUALIFY_DANGER = Some ''off'', ALERTS_QUALIFY_INCIDENT = Some ''off'',
      ALERTS_RACE_DANGER = Some ''off'', ALERTS_RACE_INCIDENT = Some ''off'',
      ALERTS_WARMUP_DANGER = Some ''off'', ALERTS_WARMUP_INCIDENT = Some ''off''\<rparr>"

definition env_race_danger_OFF :: Environment where
  "env_race_danger_OFF = env_unset\<lparr>ALERTS_RACE_DANGER := Some ''OFF''\<rparr>"

text \<open>
  A high-risk driver in car slot 7, seen at a given gap in seconds behind the local car;
  and four proximity updates: the car at 1.0 s, at 1.2 s, at 2.0 s and at 0.9 s.
\<close>

definition high_risk_driver :: AnalyzedDriver where
  "high_risk_driver =
     \<lparr>carIdx = 7, carNumber = ''77'', custId = 1007, name = ''Driver 7'', sr = ''2.10'',
      licenseClass = ''C'', iRating = 1500, totalRaces = 12, recentRaces = 3,
      avgIncidents = 8.5, recentAvgIncidents = 9, lastRaceIncidents = 10,
      incidentTypes = \<lparr>contact4x = 9, lostControl2x = 4, offTrack1x = 6, total_count = 19\<rparr>,
      riskScore = 10, riskLevel = ''HIGH'', patterns = [], isMe = False\<rparr>"

definition seen_at :: "real \<Rightarrow> NearbyDriver" where
  "seen_at g = \<lparr>driver = high_risk_driver, gap = Some g, direction = BEHIND, sessionIncidents = 0\<rparr>"

definition update_at :: "real \<Rightarrow> ProximityUpdate" where
  "update_at g = (3, 5, [seen_at g], 20, 0)"

text \<open>
  The local driver in car slot 0, a racing state that knows both drivers, and a telemetry
  sample with the local car at 50 percent of the lap and car 7 at 51 percent (0.9 s
  ahead at 90 s a lap).
\<close>

definition local_driver :: AnalyzedDriver where
  "local_driver = high_risk_driver\<lparr>carIdx := 0, carNumber := ''1'', custId := 1000,
     name := ''Me'', riskLevel := ''YOU'', isMe := True\<rparr>"

definition racing_state :: SessionContext where
  "racing_state = initialState\<lparr>analyzedDrivers := [(0, local_driver), (7, high_risk_driver)],
     myCarIdx := 0, currentPhase := RACING, preRaceAnalysisComplete := True\<rparr>"

definition close_sample :: Telemetry where
  "close_sample =
     \<lparr>SessionFlags = Some 4,
      CarIdxLap = (\<lambda>i. Some 5),
      CarIdxLapDistPct = (\<lambda>i. if i = 7 then Some 0.51 else Some 0.50),
      CarIdxPosition = (\<lambda>i. Some 3),
      CarIdxClassPosition = (\<lambda>i. Some 3),
      CarIdxOnPitRoad = (\<lambda>i. Some False),
      PlayerCarMyIncidentCount = Some 0\<rparr>"

text \<open>
  The sample \<open>close_sample\<close> with car 7 on the pit road, at the same place on the lap;
  and a proximity update that lists no car.
\<close>

definition pit_sample :: Telemetry where
  "pit_sample = close_sample\<lparr>CarIdxOnPitRoad := (\<lambda>i. Some (i = 7))\<rparr>"

definition empty_update :: ProximityUpdate where
  "empty_update = (3, 5, [], 20, 0)"

text \<open>The alert configuration of an environment with nothing set: every switch on.\<close>

definition cfg0 :: AlertConfig where
  "cfg0 = alertConfig env_unset"

section \<open>Notions used in the statements\<close>

text \<open>The three timing counters are non-negative: the invariant of the two loops.\<close>

definition timingCountersOk :: "Counters \<Rightarrow> bool" where
  "timingCountersOk k \<longleftrightarrow>
     0 \<le> lap1_2Incidents k \<and> 0 \<le> midRaceIncidents k \<and> 0 \<le> finalLapIncidents k"

text \<open>
  The races of the combined lookup window, as the specification words it: those of the
  30-day search or, when that finds none, those of the most-recent-races fallback;
  \<open>None\<close> when the fallback request fails.
\<close>

definition combinedLookup :: "IRacingClient \<Rightarrow> int \<Rightarrow> int \<Rightarrow> IRacingRecentRace list option" where
  "combinedLookup api thirtyDaysAgo cust =
     (case searchRaceResults api cust thirtyDaysAgo of
        [] \<Rightarrow> getRecentRaces api cust
      | r # rs \<Rightarrow> Some (r # rs))"

text \<open>
  The safety-rating buffer of a user to their floor, as the program computes it: the
  difference of the two ratings, rounded to a double.
\<close>

definition srBufferOf :: "UserProfile \<Rightarrow> real" where
  "srBufferOf u = double (double (user_sr u) - double (srGoal u))"

section \<open>Properties\<close>

subsection \<open>Rounding to doubles\<close>

lemma halvings_bounds: "1 \<le> x \<Longrightarrow> 2 ^ halvings x \<le> x \<and> x < 2 ^ Suc (halvings x)"
proof (induction x rule: halvings.induct)
  case (1 x)
  show ?case
  proof (cases "2 \<le> x")
    case True
    then have "1 \<le> x / 2" by simp
    with True "1.IH" have "2 ^ halvings (x / 2) \<le> x / 2 \<and> x / 2 < 2 ^ Suc (halvings (x / 2))"
      by simp
    moreover have "halvings x = Suc (halvings (x / 2))"
      using True by (subst halvings.simps) simp
    ultimately show ?thesis by simp
  next
    case False
    then have "halvings x = 0"
      by (subst halvings.simps) simp
    with False "1.prems" show ?thesis by simp
  qed
qed

lemma doublings_bounds:
  "0 < x \<Longrightarrow> x < 1 \<Longrightarrow> 1 \<le> x * 2 ^ doublings x \<and> x * 2 ^ doublings x < 2"
proof (induction x rule: doublings.induct)
  case (1 x)
  from "1.prems" have s: "doublings x = Suc (doublings (x * 2))"
    by (subst doublings.simps) simp
  show ?case
  proof (cases "x * 2 < 1")
    case True
    with "1.prems" "1.IH" have "1 \<le> x * 2 * 2 ^ doublings (x * 2) \<and> x * 2 * 2 ^ doublings (x * 2) < 2"
      by simp
    with s show ?thesis by (simp add: mult.assoc)
  next
    case False
    then have "doublings (x * 2) = 0"
      by (subst doublings.simps) simp
    with s False "1.prems" show ?thesis by simp
  qed
qed

lemma doublings_pos: "0 < x \<Longrightarrow> x < 1 \<Longrightarrow> 0 < doublings x"
  by (subst doublings.simps) simp

lemma exponent_bounds:
  assumes "0 < x"
  shows "2 powi exponent x \<le> x" and "x < 2 powi (exponent x + 1)"
proof -
  have "2 powi exponent x \<le> x \<and> x < 2 powi (exponent x + 1)"
  proof (cases "1 \<le> x")
    case True
    then have e: "exponent x = int (halvings x)" by (simp add: exponent_def)
    have "(2::real) powi (int (halvings x) + 1) = 2 ^ Suc (halvings x)"
      by (simp add: power_int_add)
    with halvings_bounds [OF True] show ?thesis
      unfolding e by simp
  next
    case False
    then have lt: "x < 1" by simp
    from False have e: "exponent x = - int (doublings x)" by (simp add: exponent_def)
    let ?d = "doublings x"
    from doublings_bounds [OF assms lt] have b: "1 \<le> x * 2 ^ ?d" "x * 2 ^ ?d < 2"
      by simp_all
    have p: "(2::real) powi (- int ?d) = 1 / 2 ^ ?d"
      by (simp add: power_int_minus_divide)
    have "(2::real) powi (- int ?d + 1) = 2 powi (- int ?d) * 2 powi 1"
      by (rule power_int_add) simp
    then have q: "(2::real) powi (- int ?d + 1) = 2 / 2 ^ ?d"
      unfolding p by simp
    from b show ?thesis
      unfolding e p q by (simp add: field_simps)
  qed
  then show "2 powi exponent x \<le> x" and "x < 2 powi (exponent x + 1)"
    by simp_all
qed

lemma exponent_unique:
  assumes "0 < x" "2 powi e \<le> x" "x < 2 powi (e + 1)"
  shows "exponent x = e"
proof (rule ccontr)
  assume ne: "exponent x \<noteq> e"
  show False
  proof (cases "exponent x < e")
    case True
    then have "(2::real) powi (exponent x + 1) \<le> 2 powi e"
      by (intro power_int_increasing) simp_all
    with exponent_bounds(2) [OF assms(1)] assms(2) show False by linarith
  next
    case False
    with ne have "e + 1 \<le> exponent x" by simp
    then have "(2::real) powi (e + 1) \<le> 2 powi exponent x"
      by (intro power_int_increasing) simp_all
    with exponent_bounds(1) [OF assms(1)] assms(3) show False by linarith
  qed
qed

lemma exponent_mono:
  assumes "0 < x" "x \<le> y"
  shows "exponent x \<le> exponent y"
proof (rule ccontr)
  assume "\<not> exponent x \<le> exponent y"
  then have "exponent y + 1 \<le> exponent x" by simp
  then have "(2::real) powi (exponent y + 1) \<le> 2 powi exponent x"
    by (intro power_int_increasing) simp_all
  moreover have "0 < y" using assms by simp
  ultimately show False
    using exponent_bounds(1) [OF assms(1)] exponent_bounds(2) [of y] assms(2) by linarith
qed

lemma round_half_even_bounds:
  "y - 1 / 2 \<le> real_of_int (round_half_even y)" "real_of_int (round_half_even y) \<le> y + 1 / 2"
  unfolding round_half_even_def Let_def by (auto; linarith)+

lemma round_half_even_int: "round_half_even (real_of_int n) = n"
  by (simp add: round_half_even_def)

lemma round_half_even_mono:
  assumes "y \<le> z"
  shows "round_half_even y \<le> round_half_even z"
proof (rule ccontr)
  assume "\<not> round_half_even y \<le> round_half_even z"
  then have "round_half_even z + 1 \<le> round_half_even y" by simp
  then have "real_of_int (round_half_even z) + 1 \<le> real_of_int (round_half_even y)"
    by linarith
  with round_half_even_bounds(1) [of z] round_half_even_bounds(2) [of y] assms
  have "z = y" by linarith
  with \<open>\<not> round_half_even y \<le> round_half_even z\<close> show False by simp
qed

lemma double_zero: "double 0 = 0"
  by (simp add: double_def)

lemma double_minus: "double (- x) = - double x"
  by (simp add: double_def Let_def)

lemma double_pos:
  "0 < x \<Longrightarrow> double x
     = real_of_int (round_half_even (x / 2 powi (exponent x - 52))) * 2 powi (exponent x - 52)"
  by (simp add: double_def Let_def)

lemma scaled_bounds:
  assumes "0 < x"
  shows "2 ^ 52 \<le> x / 2 powi (exponent x - 52)" and "x / 2 powi (exponent x - 52) < 2 ^ 53"
proof -
  have u: "(0::real) < 2 powi (exponent x - 52)" by simp
  have a: "(2::real) powi exponent x = 2 ^ 52 * 2 powi (exponent x - 52)"
    by (simp add: power_int_diff)
  have b: "(2::real) powi (exponent x + 1) = 2 ^ 53 * 2 powi (exponent x - 52)"
    by (simp add: power_int_diff power_int_add)
  from exponent_bounds(1) [OF assms] show "2 ^ 52 \<le> x / 2 powi (exponent x - 52)"
    unfolding a using u by (simp add: pos_le_divide_eq)
  from exponent_bounds(2) [OF assms] show "x / 2 powi (exponent x - 52) < 2 ^ 53"
    unfolding b using u by (simp add: pos_divide_less_eq)
qed

lemma mantissa_bounds:
  assumes "0 < x"
  shows "2 ^ 52 \<le> real_of_int (round_half_even (x / 2 powi (exponent x - 52)))"
    and "real_of_int (round_half_even (x / 2 powi (exponent x - 52))) \<le> 2 ^ 53"
proof -
  let ?u = "(2::real) powi (exponent x - 52)"
  let ?n = "round_half_even (x / ?u)"
  have "round_half_even (real_of_int (2 ^ 52)) \<le> ?n"
    by (rule round_half_even_mono) (use scaled_bounds(1) [OF assms] in simp)
  then have "real_of_int (2 ^ 52) \<le> real_of_int ?n"
    unfolding round_half_even_int by (simp only: of_int_le_iff)
  then show "2 ^ 52 \<le> real_of_int ?n"
    by simp
  have "?n \<le> round_half_even (real_of_int (2 ^ 53))"
    by (rule round_half_even_mono) (use scaled_bounds(2) [OF assms] in simp)
  then have "real_of_int ?n \<le> real_of_int (2 ^ 53)"
    unfolding round_half_even_int by (simp only: of_int_le_iff)
  then show "real_of_int ?n \<le> 2 ^ 53"
    by simp
qed

lemma ulp_scaling:
  "(2::real) powi e = 2 ^ 52 * 2 powi (e - 52)" "(2::real) powi (e + 1) = 2 ^ 53 * 2 powi (e - 52)"
  by (simp_all add: power_int_diff power_int_add)

lemma double_pos_bounds:
  assumes "0 < x"
  shows "2 powi exponent x \<le> double x" and "double x \<le> 2 powi (exponent x + 1)"
proof -
  let ?u = "(2::real) powi (exponent x - 52)"
  have u: "0 < ?u" by simp
  from mantissa_bounds(1) [OF assms] u show "2 powi exponent x \<le> double x"
    unfolding ulp_scaling(1) [of "exponent x"] double_pos [OF assms]
    by (intro mult_right_mono) simp_all
  from mantissa_bounds(2) [OF assms] u show "double x \<le> 2 powi (exponent x + 1)"
    unfolding ulp_scaling(2) [of "exponent x"] double_pos [OF assms]
    by (intro mult_right_mono) simp_all
qed

lemma double_pos_pos: "0 < x \<Longrightarrow> 0 < double x"
  using double_pos_bounds(1) [of x] zero_less_power_int [of "2::real" "exponent x"] by linarith

lemma double_mono_pos:
  assumes "0 < x" "x \<le> y"
  shows "double x \<le> double y"
proof -
  have y: "0 < y" using assms by simp
  show ?thesis
  proof (cases "exponent x = exponent y")
    case True
    have "round_half_even (x / 2 powi (exponent y - 52)) \<le> round_half_even (y / 2 powi (exponent y - 52))"
      by (rule round_half_even_mono) (use assms in \<open>simp add: divide_right_mono\<close>)
    then have "real_of_int (round_half_even (x / 2 powi (exponent y - 52))) * 2 powi (exponent y - 52)
        \<le> real_of_int (round_half_even (y / 2 powi (exponent y - 52))) * 2 powi (exponent y - 52)"
      by (intro mult_right_mono) simp_all
    then show ?thesis
      unfolding double_pos [OF assms(1)] double_pos [OF y] True .
  next
    case False
    with exponent_mono [OF assms] have "exponent x + 1 \<le> exponent y" by simp
    then have "(2::real) powi (exponent x + 1) \<le> 2 powi exponent y"
      by (intro power_int_increasing) simp_all
    with double_pos_bounds(2) [OF assms(1)] double_pos_bounds(1) [OF y] show ?thesis
      by linarith
  qed
qed

lemma double_mono:
  assumes "x \<le> y"
  shows "double x \<le> double y"
proof -
  consider (pos) "0 < x" | (zero) "x = 0" | (neg) "x < 0" by linarith
  then show ?thesis
  proof cases
    case pos
    show ?thesis by (rule double_mono_pos [OF pos assms])
  next
    case zero
    show ?thesis
    proof (cases "y = 0")
      case True
      with zero show ?thesis by simp
    next
      case False
      with zero assms have "0 < y" by simp
      from double_pos_pos [OF this] zero show ?thesis by (simp add: double_zero)
    qed
  next
    case neg
    then have nx: "0 < - x" by simp
    consider (ypos) "0 < y" | (yzero) "y = 0" | (yneg) "y < 0" by linarith
    then show ?thesis
    proof cases
      case ypos
      from double_pos_pos [OF nx] double_pos_pos [OF ypos] show ?thesis
        by (simp add: double_minus)
    next
      case yzero
      from double_pos_pos [OF nx] yzero show ?thesis
        by (simp add: double_minus double_zero)
    next
      case yneg
      then have "0 < - y" "- y \<le> - x" using assms by simp_all
      then have "double (- y) \<le> double (- x)" by (rule double_mono_pos)
      then show ?thesis by (simp add: double_minus)
    qed
  qed
qed

lemma double_nonneg: "0 \<le> x \<Longrightarrow> 0 \<le> double x"
  using double_mono [of 0 x] by (simp add: double_zero)

lemma double_error:
  assumes "0 \<le> x"
  shows "\<bar>double x - x\<bar> \<le> x / 2 ^ 53"
proof (cases "x = 0")
  case True
  then show ?thesis by (simp add: double_zero)
next
  case False
  with assms have pos: "0 < x" by simp
  let ?u = "(2::real) powi (exponent x - 52)"
  let ?t = "x / ?u"
  have u: "0 < ?u" by simp
  have x: "x = ?t * ?u" by simp
  have "\<bar>real_of_int (round_half_even ?t) - ?t\<bar> \<le> 1 / 2"
    using round_half_even_bounds [of ?t] by linarith
  then have "\<bar>real_of_int (round_half_even ?t) - ?t\<bar> * ?u \<le> 1 / 2 * ?u"
    by (intro mult_right_mono) simp_all
  moreover have "\<bar>real_of_int (round_half_even ?t) - ?t\<bar> * ?u
      = \<bar>(real_of_int (round_half_even ?t) - ?t) * ?u\<bar>"
    using u by (simp add: abs_mult)
  moreover have "(real_of_int (round_half_even ?t) - ?t) * ?u
      = real_of_int (round_half_even ?t) * ?u - x"
    using u by (simp add: left_diff_distrib)
  ultimately have e: "\<bar>double x - x\<bar> \<le> ?u / 2"
    unfolding double_pos [OF pos] by simp
  have "2 ^ 52 * ?u \<le> x"
    using scaled_bounds(1) [OF pos] u by (simp add: pos_le_divide_eq)
  then have "?u / 2 \<le> x / 2 ^ 53" by simp
  with e show ?thesis by linarith
qed

lemma double_exactI:
  assumes "0 < x" "2 powi e \<le> x" "x < 2 powi (e + 1)" "x / 2 powi (e - 52) = real_of_int n"
  shows "double x = x"
proof -
  have e: "exponent x = e" by (rule exponent_unique [OF assms(1-3)])
  show ?thesis
    unfolding double_pos [OF assms(1)] e assms(4) round_half_even_int
    using assms(4) by (simp add: field_simps)
qed

lemma double_exact_values:
  "double 1 = 1" "double 2 = 2" "double 3 = 3" "double 4 = 4" "double 5 = 5" "double 6 = 6"
  "double 7 = 7" "double 10 = 10" "double 100 = 100" "double 0.5 = 0.5" "double 1.5 = 1.5" "double 2.5 = 2.5"
  by code_simp+

lemma double_idem: "double (double x) = double x"
proof -
  have pos: "double (double y) = double y" if y: "0 < y" for y
  proof -
    let ?e = "exponent y"
    let ?u = "(2::real) powi (?e - 52)"
    let ?n = "round_half_even (y / ?u)"
    have u: "0 < ?u" by simp
    have d: "double y = real_of_int ?n * ?u" by (rule double_pos [OF y])
    have dpos: "0 < double y" by (rule double_pos_pos [OF y])
    show ?thesis
    proof (cases "real_of_int ?n < 2 ^ 53")
      case True
      have "double y < 2 ^ 53 * ?u"
        unfolding d using True u by (simp add: mult_strict_right_mono)
      then have hi: "double y < 2 powi (?e + 1)"
        unfolding ulp_scaling(2) [of ?e] .
      have q: "double y / 2 powi (?e - 52) = real_of_int ?n"
        unfolding d using u by simp
      show ?thesis
        by (rule double_exactI [OF dpos double_pos_bounds(1) [OF y] hi q])
    next
      case False
      with mantissa_bounds(2) [OF y] have n: "real_of_int ?n = 2 ^ 53" by linarith
      have v: "double y = 2 powi (?e + 1)"
        unfolding d n ulp_scaling(2) [of ?e] ..
      have lo: "2 powi (?e + 1) \<le> double y" unfolding v ..
      have "(2::real) powi (?e + 1) < 2 powi (?e + 1 + 1)"
        by (intro power_int_strict_increasing) simp_all
      then have hi: "double y < 2 powi (?e + 1 + 1)" unfolding v .
      have "(2::real) powi (?e + 1) = 2 ^ 52 * 2 powi (?e + 1 - 52)"
        by (rule ulp_scaling(1))
      then have q: "double y / 2 powi (?e + 1 - 52) = real_of_int (2 ^ 52)"
        unfolding v by simp
      show ?thesis
        by (rule double_exactI [OF dpos lo hi q])
    qed
  qed
  consider (p) "0 < x" | (z) "x = 0" | (n) "x < 0" by linarith
  then show ?thesis
  proof cases
    case p
    then show ?thesis by (rule pos)
  next
    case z
    then show ?thesis by (simp add: double_zero)
  next
    case n
    then have "0 < - x" by simp
    from pos [OF this] show ?thesis by (simp add: double_minus)
  qed
qed

lemma double_le_iff_fixed:
  assumes "double c = c"
  shows "x \<le> c \<Longrightarrow> double x \<le> c" and "c \<le> x \<Longrightarrow> c \<le> double x"
  using double_mono [of x c] double_mono [of c x] assms by simp_all


subsection \<open>The severity decomposition\<close>

lemma while_contact_eq:
  "0 \<le> r \<Longrightarrow> while_contact r n = (r mod 4, n + r div 4)"
proof (induction r n rule: while_contact.induct)
  case (1 remaining n4)
  show ?case
  proof (cases "remaining \<ge> 4")
    case True
    have m: "(remaining - 4) mod 4 = remaining mod 4"
      by presburger
    have d: "(remaining - 4) div 4 + 1 = remaining div 4"
      by presburger
    from True "1.IH" have "while_contact (remaining - 4) (n4 + 1) =
        ((remaining - 4) mod 4, n4 + 1 + (remaining - 4) div 4)"
      by simp
    with True m d show ?thesis
      by (subst while_contact.simps) (simp add: add.assoc add.commute)
  next
    case False
    with "1.prems" have "remaining mod 4 = remaining" "remaining div 4 = 0"
      by simp_all
    with False show ?thesis
      by (subst while_contact.simps) simp
  qed
qed

lemma while_spin_eq:
  "0 \<le> r \<Longrightarrow> while_spin r n = (r mod 2, n + r div 2)"
proof (induction r n rule: while_spin.induct)
  case (1 remaining n2)
  show ?case
  proof (cases "remaining \<ge> 2")
    case True
    have m: "(remaining - 2) mod 2 = remaining mod 2"
      by presburger
    have d: "(remaining - 2) div 2 + 1 = remaining div 2"
      by presburger
    from True "1.IH" have "while_spin (remaining - 2) (n2 + 1) =
        ((remaining - 2) mod 2, n2 + 1 + (remaining - 2) div 2)"
      by simp
    with True m d show ?thesis
      by (subst while_spin.simps) (simp add: add.assoc add.commute)
  next
    case False
    with "1.prems" have "remaining mod 2 = remaining" "remaining div 2 = 0"
      by simp_all
    with False show ?thesis
      by (subst while_spin.simps) simp
  qed
qed

lemma estimateIncidentTypes_closed_form:
  assumes "0 \<le> d"
  shows "estimateIncidentTypes d = \<lparr>x4 = d div 4, x2 = (d mod 4) div 2, x1 = d mod 2\<rparr>"
proof (cases "d = 0")
  case True
  then show ?thesis by (simp add: estimateIncidentTypes_def)
next
  case False
  with assms have pos: "0 < d" by simp
  have r: "0 \<le> d mod 4" by simp
  have "d mod 4 mod 2 = d mod 2"
    by presburger
  with pos show ?thesis
    by (simp add: estimateIncidentTypes_def while_contact_eq [OF assms] while_spin_eq [OF r])
qed

lemma greedy_decomposition_eq:
  "greedy_decomposition n = (n div 4, (n mod 4) div 2, n mod 2)"
proof (induction n rule: greedy_decomposition.induct)
  case (1 n)
  consider (four) "4 \<le> n" | (two) "n = 2 \<or> n = 3" | (rest) "n = 0 \<or> n = 1"
    by linarith
  then show ?case
  proof cases
    case four
    then obtain m where m: "n = m + 4"
      by (metis le_add_diff_inverse2)
    from four "1.IH"(1) m have "greedy_decomposition m = (m div 4, (m mod 4) div 2, m mod 2)"
      by simp
    then have "greedy_decomposition (m + 4) = (Suc (m div 4), (m mod 4) div 2, m mod 2)"
      by (subst greedy_decomposition.simps) simp
    moreover have "(m + 4) div 4 = Suc (m div 4)" "(m + 4) mod 4 = m mod 4"
      by simp_all
    moreover have "(m + 4) mod 2 = m mod 2"
      by presburger
    ultimately show ?thesis
      unfolding m by simp
  next
    case two
    then have c: "\<not> 4 \<le> n" "2 \<le> n" by auto
    with "1.IH"(2) have "greedy_decomposition (n - 2) = ((n - 2) div 4, ((n - 2) mod 4) div 2, (n - 2) mod 2)"
      by simp
    with two show ?thesis
      by (subst greedy_decomposition.simps) auto
  next
    case rest
    then show ?thesis
      by (subst greedy_decomposition.simps) auto
  qed
qed

text \<open>
  C1. For every non-negative integer lap delta, the counts returned by
  \<open>estimateIncidentTypes\<close> are non-negative, their weighted sum
  \<open>4 * x4 + 2 * x2 + x1\<close> is the delta, the off-track count is 0 or 1, and the three
  counts are those of the greedy highest-first decomposition: as many fours as fit, then
  as many twos as fit in what remains, then the remainder.
\<close>

theorem estimateIncidentTypes_greedy:
  assumes "0 \<le> delta"
  shows "0 \<le> x4 (estimateIncidentTypes delta)
       \<and> 0 \<le> x2 (estimateIncidentTypes delta)
       \<and> 0 \<le> x1 (estimateIncidentTypes delta)
       \<and> 4 * x4 (estimateIncidentTypes delta) + 2 * x2 (estimateIncidentTypes delta)
           + 1 * x1 (estimateIncidentTypes delta) = delta
       \<and> x1 (estimateIncidentTypes delta) \<in> {0, 1}
       \<and> (x4 (estimateIncidentTypes delta), x2 (estimateIncidentTypes delta),
            x1 (estimateIncidentTypes delta))
           = (case greedy_decomposition (nat delta) of
                (c4, c2, c1) \<Rightarrow> (int c4, int c2, int c1))"
proof -
  have cf: "estimateIncidentTypes delta =
      \<lparr>x4 = delta div 4, x2 = (delta mod 4) div 2, x1 = delta mod 2\<rparr>"
    by (rule estimateIncidentTypes_closed_form [OF assms])
  have nonneg: "0 \<le> delta div 4" "0 \<le> (delta mod 4) div 2" "0 \<le> delta mod 2"
    using assms by simp_all
  have sum: "4 * (delta div 4) + 2 * ((delta mod 4) div 2) + 1 * (delta mod 2) = delta"
    by presburger
  have bit: "delta mod 2 \<in> {0, 1}"
    by auto
  have g4: "int (nat delta div 4) = delta div 4"
    using assms by (simp add: zdiv_int)
  have g2: "int (nat delta mod 4 div 2) = delta mod 4 div 2"
    using assms by (simp add: zdiv_int zmod_int)
  have g1: "int (nat delta mod 2) = delta mod 2"
    using assms by (simp add: zmod_int)
  show ?thesis
    unfolding cf greedy_decomposition_eq
    using nonneg sum bit g4 g2 g1 by simp
qed

theorem estimateIncidentTypes_greedy_witness:
  "(0::int) \<le> 7
   \<and> estimateIncidentTypes 7 = \<lparr>x4 = 1, x2 = 1, x1 = 1\<rparr>
   \<and> 4 * x4 (estimateIncidentTypes 7) + 2 * x2 (estimateIncidentTypes 7)
       + 1 * x1 (estimateIncidentTypes 7) = 7
   \<and> greedy_decomposition (nat 7) = (1, 1, 1)"
proof -
  have h: "(0::int) \<le> 7" by simp
  have e: "estimateIncidentTypes 7 = \<lparr>x4 = 1, x2 = 1, x1 = 1\<rparr>"
    by (simp add: estimateIncidentTypes_def while_contact.simps while_spin.simps)
  have g: "greedy_decomposition (nat 7) = (1, 1, 1)"
    by code_simp
  from estimateIncidentTypes_greedy [OF h] h e g show ?thesis
    by simp
qed

subsection \<open>Incident timing\<close>

lemma lapStep_ok: "timingCountersOk k \<Longrightarrow> timingCountersOk (lapStep totalLaps prev cur k)"
  unfolding timingCountersOk_def lapStep_def Let_def by simp

lemma lapLoop_ok: "timingCountersOk k \<Longrightarrow> timingCountersOk (lapLoop totalLaps prev laps k)"
  by (induction laps arbitrary: prev k) (simp_all add: lapStep_ok)

lemma raceLoop_ok: "timingCountersOk k \<Longrightarrow> timingCountersOk (raceLoop api cust races k)"
proof (induction races arbitrary: k)
  case Nil
  then show ?case by simp
next
  case (Cons r rest)
  then show ?case
    by (simp add: lapLoop_ok split: option.splits list.splits)
qed

lemma noIncidents_ok: "timingCountersOk noIncidents"
  by (simp add: timingCountersOk_def noIncidents_def)

lemma Math_round_bounds:
  "x - 1 / 2 < real_of_int (Math_round x)" "real_of_int (Math_round x) \<le> x + 1 / 2"
  unfolding Math_round_def by linarith+

lemma double_error_le:
  assumes "0 \<le> x" "x \<le> c"
  shows "\<bar>double x - x\<bar> \<le> c / 8000000000000000"
proof -
  have "\<bar>double x - x\<bar> \<le> x / 2 ^ 53" by (rule double_error [OF assms(1)])
  also have "\<dots> \<le> c / 2 ^ 53" using assms(2) by (simp add: divide_right_mono)
  also have "\<dots> \<le> c / 8000000000000000"
    using assms by (intro divide_left_mono) simp_all
  finally show ?thesis .
qed

lemma double_between:
  assumes "0 \<le> x" "x \<le> c" "double c = c"
  shows "0 \<le> double x" "double x \<le> c"
  using double_mono [OF assms(1)] double_mono [OF assms(2)] assms(3)
  by (simp_all add: double_zero)

text \<open>
  The number of hundredths that \<open>roundedShare\<close> rounds to, for a window with \<open>a\<close> of the
  \<open>T\<close> incident points: it lies between 0 and 100 and within a half (and the rounding
  error of the two double operations) of the exact percentage.
\<close>

lemma hundredths_bounds:
  assumes "0 \<le> a" "a \<le> T" "0 < T"
  shows "0 \<le> Math_round (double (double (real_of_int a / real_of_int T) * 100))"
    and "Math_round (double (double (real_of_int a / real_of_int T) * 100)) \<le> 100"
    and "real_of_int a / real_of_int T * 100 - 501 / 1000
           < real_of_int (Math_round (double (double (real_of_int a / real_of_int T) * 100)))"
    and "real_of_int (Math_round (double (double (real_of_int a / real_of_int T) * 100)))
           \<le> real_of_int a / real_of_int T * 100 + 501 / 1000"
proof -
  let ?q = "real_of_int a / real_of_int T"
  let ?p = "double ?q * 100"
  let ?n = "Math_round (double ?p)"
  have q: "0 \<le> ?q" "?q \<le> 1" using assms by simp_all
  have dq: "0 \<le> double ?q" "double ?q \<le> 1"
    by (rule double_between [OF q double_exact_values(1)])+
  have eq: "\<bar>double ?q - ?q\<bar> \<le> 1 / 8000000000000000"
    by (rule double_error_le [OF q])
  have p: "0 \<le> ?p" "?p \<le> 100" using dq by simp_all
  have dp: "0 \<le> double ?p" "double ?p \<le> 100"
    using double_between [OF p] double_exact_values by simp_all
  have ep: "\<bar>double ?p - ?p\<bar> \<le> 100 / 8000000000000000"
    by (rule double_error_le [OF p])
  have "0 \<le> double ?p + 1 / 2" using dp(1) by simp
  then show "0 \<le> ?n" unfolding Math_round_def by (simp add: le_floor_iff)
  have "double ?p + 1 / 2 < 101" using dp(2) by simp
  then have "?n < 101" unfolding Math_round_def by (simp add: floor_less_iff)
  then show "?n \<le> 100" by simp
  from eq ep Math_round_bounds(1) [of "double ?p"]
  show "?q * 100 - 501 / 1000 < real_of_int ?n" by linarith
  from eq ep Math_round_bounds(2) [of "double ?p"]
  show "real_of_int ?n \<le> ?q * 100 + 501 / 1000" by linarith
qed

lemma hundredths_share:
  assumes "0 \<le> n" "n \<le> 100"
  shows "0 \<le> double (real_of_int n / 100)" "double (real_of_int n / 100) \<le> 1"
    and "\<bar>double (real_of_int n / 100) - real_of_int n / 100\<bar> \<le> 1 / 8000000000000000"
proof -
  have r: "0 \<le> real_of_int n / 100" "real_of_int n / 100 \<le> 1" using assms by simp_all
  show "0 \<le> double (real_of_int n / 100)" "double (real_of_int n / 100) \<le> 1"
    by (rule double_between [OF r double_exact_values(1)])+
  show "\<bar>double (real_of_int n / 100) - real_of_int n / 100\<bar> \<le> 1 / 8000000000000000"
    by (rule double_error_le [OF r])
qed

lemma hundredths_sum:
  assumes "0 \<le> a" "0 \<le> b" "0 \<le> c" "0 < T" "a + b + c = T"
  shows "99 \<le> Math_round (double (double (real_of_int a / real_of_int T) * 100))
             + Math_round (double (double (real_of_int b / real_of_int T) * 100))
             + Math_round (double (double (real_of_int c / real_of_int T) * 100))"
    and "Math_round (double (double (real_of_int a / real_of_int T) * 100))
           + Math_round (double (double (real_of_int b / real_of_int T) * 100))
           + Math_round (double (double (real_of_int c / real_of_int T) * 100)) \<le> 101"
proof -
  let ?ya = "real_of_int a / real_of_int T * 100"
  let ?yb = "real_of_int b / real_of_int T * 100"
  let ?yc = "real_of_int c / real_of_int T * 100"
  let ?N = "Math_round (double (double (real_of_int a / real_of_int T) * 100))
             + Math_round (double (double (real_of_int b / real_of_int T) * 100))
             + Math_round (double (double (real_of_int c / real_of_int T) * 100))"
  from assms have le: "a \<le> T" "b \<le> T" "c \<le> T" by linarith+
  have "?ya + ?yb + ?yc = (real_of_int a + real_of_int b + real_of_int c) / real_of_int T * 100"
    by (simp add: add_divide_distrib distrib_right)
  also have "real_of_int a + real_of_int b + real_of_int c = real_of_int T"
    using assms(5) by (metis of_int_add)
  finally have s: "?ya + ?yb + ?yc = 100" using assms(4) by simp
  have lo: "100 - 1503 / 1000 < real_of_int ?N"
    using hundredths_bounds(3) [OF assms(1) le(1) assms(4)]
      hundredths_bounds(3) [OF assms(2) le(2) assms(4)]
      hundredths_bounds(3) [OF assms(3) le(3) assms(4)] s
    by simp
  have hi: "real_of_int ?N \<le> 100 + 1503 / 1000"
    using hundredths_bounds(4) [OF assms(1) le(1) assms(4)]
      hundredths_bounds(4) [OF assms(2) le(2) assms(4)]
      hundredths_bounds(4) [OF assms(3) le(3) assms(4)] s
    by simp
  from lo have "98 < ?N" by linarith
  then show "99 \<le> ?N" by simp
  from hi have "?N < 102" by linarith
  then show "?N \<le> 101" by simp
qed

text \<open>
  Three shares of whole hundredths that sum to 99, 100 or 101 hundredths: their sum,
  added exactly or as the doubles that they are, is within 0.01 + 1e-15 of 1.
\<close>

lemma share_sum:
  assumes "0 \<le> n1" "n1 \<le> 100" "0 \<le> n2" "n2 \<le> 100" "0 \<le> n3" "n3 \<le> 100"
    and "99 \<le> n1 + n2 + n3" "n1 + n2 + n3 \<le> 101"
  shows "\<bar>double (real_of_int n1 / 100) + double (real_of_int n2 / 100)
           + double (real_of_int n3 / 100) - 1\<bar> \<le> 1 / 100 + 1 / 10 ^ 15"
    and "\<bar>double (double (double (real_of_int n1 / 100) + double (real_of_int n2 / 100))
           + double (real_of_int n3 / 100)) - 1\<bar> \<le> 1 / 100 + 1 / 10 ^ 15"
proof -
  let ?l = "double (real_of_int n1 / 100)"
  let ?m = "double (real_of_int n2 / 100)"
  let ?f = "double (real_of_int n3 / 100)"
  note l = hundredths_share [OF assms(1,2)]
  note m = hundredths_share [OF assms(3,4)]
  note f = hundredths_share [OF assms(5,6)]
  have N: "99 \<le> real_of_int n1 + real_of_int n2 + real_of_int n3"
    "real_of_int n1 + real_of_int n2 + real_of_int n3 \<le> 101"
    using assms(7,8) by linarith+
  have t: "(1::real) / 10 ^ 15 = 8 / 8000000000000000" by simp
  from l(3) m(3) f(3) N show "\<bar>?l + ?m + ?f - 1\<bar> \<le> 1 / 100 + 1 / 10 ^ 15"
    unfolding t by linarith
  have lm: "0 \<le> ?l + ?m" "?l + ?m \<le> 2" using l(1,2) m(1,2) by simp_all
  have dlm: "0 \<le> double (?l + ?m)" "double (?l + ?m) \<le> 2"
    by (rule double_between [OF lm double_exact_values(2)])+
  have e1: "\<bar>double (?l + ?m) - (?l + ?m)\<bar> \<le> 2 / 8000000000000000"
    by (rule double_error_le [OF lm])
  have s: "0 \<le> double (?l + ?m) + ?f" "double (?l + ?m) + ?f \<le> 3"
    using dlm f(1,2) by simp_all
  have e2: "\<bar>double (double (?l + ?m) + ?f) - (double (?l + ?m) + ?f)\<bar> \<le> 3 / 8000000000000000"
    by (rule double_error_le [OF s])
  from l(3) m(3) f(3) e1 e2 N
  show "\<bar>double (double (?l + ?m) + ?f) - 1\<bar> \<le> 1 / 100 + 1 / 10 ^ 15"
    unfolding t by linarith
qed

lemma roundedShare_unit:
  assumes "0 \<le> a" "a \<le> T" "0 < T"
  shows "0 \<le> roundedShare a T" "roundedShare a T \<le> 1"
  unfolding roundedShare_def
  by (rule hundredths_share(1,2) [OF hundredths_bounds(1,2) [OF assms]])+

lemma default_shares:
  "double 0.33 = double (real_of_int 33 / 100)" "double 0.34 = double (real_of_int 34 / 100)"
  by simp_all

lemma default_sum: "double (double (double 0.33 + double 0.34) + double 0.33) = 1"
  by code_simp

lemma estimate_one: "estimateIncidentTypes 1 = \<lparr>x4 = 0, x2 = 0, x1 = 1\<rparr>"
  by (simp add: estimateIncidentTypes_def while_contact.simps while_spin.simps)

lemma three_incident_laps_counters:
  "raceLoop (lap_client three_incident_laps) 7 [one_race] noIncidents =
     \<lparr>lap1_2Incidents = 1, midRaceIncidents = 1, finalLapIncidents = 1,
      contact4x_count = 0, lostControl2x_count = 0, offTrack1x_count = 3\<rparr>"
  by (simp add: lap_client_def three_incident_laps_def one_race_def noIncidents_def
      lapStep_def estimate_one)

lemma three_incident_laps_timing:
  "timing (analyzeIncidentTiming (lap_client three_incident_laps) [one_race] 7)
     = \<lparr>lap1_2 = double 0.33, midRace = double 0.33, finalLap = double 0.33\<rparr>"
proof -
  have "roundedShare 1 3 = double 0.33" by code_simp
  then show ?thesis
    unfolding analyzeIncidentTiming_def three_incident_laps_counters by simp
qed

lemma no_laps_counters: "raceLoop (lap_client []) 7 [one_race] noIncidents = noIncidents"
  by (simp add: lap_client_def)

lemma no_laps_timing:
  "timing (analyzeIncidentTiming (lap_client []) [one_race] 7)
     = \<lparr>lap1_2 = double 0.33, midRace = double 0.34, finalLap = double 0.33\<rparr>"
  unfolding analyzeIncidentTiming_def no_laps_counters by (simp add: noIncidents_def)

text \<open>
  The shares of 1, 1 and 5 incident points of 7 are 0.14, 0.14 and 0.71: they sum to more
  than 0.99 by less than the three roundings to doubles, so that their distance from 1 is
  above 0.01.
\<close>

lemma shares_of_seven:
  "roundedShare 1 7 = double 0.14" "roundedShare 5 7 = double 0.71"
  "\<not> \<bar>roundedShare 1 7 + roundedShare 1 7 + roundedShare 5 7 - 1\<bar> \<le> 1 / 100"
  by code_simp+

text \<open>
  C2, as the claim states it, fails. With one incident point in each of the three
  windows the three fractions are 0.33 each and sum to 0.99, which is not within 1e-6 of
  1, whether the sum is taken exactly or in doubles; and when no incident is observed
  the fractions are 0.33, 0.34 and 0.33, not a third each.
\<close>

theorem analyzeIncidentTiming_sum_counterexample:
  "timing (analyzeIncidentTiming (lap_client three_incident_laps) [one_race] 7)
     = \<lparr>lap1_2 = double 0.33, midRace = double 0.33, finalLap = double 0.33\<rparr>
   \<and> \<not> \<bar>lap1_2 (timing (analyzeIncidentTiming (lap_client three_incident_laps) [one_race] 7))
       + midRace (timing (analyzeIncidentTiming (lap_client three_incident_laps) [one_race] 7))
       + finalLap (timing (analyzeIncidentTiming (lap_client three_incident_laps) [one_race] 7)) - 1\<bar>
       \<le> 1 / 1000000
   \<and> \<not> \<bar>double (double
         (lap1_2 (timing (analyzeIncidentTiming (lap_client three_incident_laps) [one_race] 7))
          + midRace (timing (analyzeIncidentTiming (lap_client three_incident_laps) [one_race] 7)))
       + finalLap (timing (analyzeIncidentTiming (lap_client three_incident_laps) [one_race] 7))) - 1\<bar>
       \<le> 1 / 1000000
   \<and> lap1_2Incidents (raceLoop (lap_client []) 7 [one_race] noIncidents)
       + midRaceIncidents (raceLoop (lap_client []) 7 [one_race] noIncidents)
       + finalLapIncidents (raceLoop (lap_client []) 7 [one_race] noIncidents) = 0
   \<and> timing (analyzeIncidentTiming (lap_client []) [one_race] 7)
       \<noteq> \<lparr>lap1_2 = 1 / 3, midRace = 1 / 3, finalLap = 1 / 3\<rparr>"
proof -
  have a: "\<not> \<bar>double 0.33 + double 0.33 + double 0.33 - 1\<bar> \<le> 1 / 1000000" by code_simp
  have b: "\<not> \<bar>double (double (double 0.33 + double 0.33) + double 0.33) - 1\<bar> \<le> 1 / 1000000"
    by code_simp
  have c: "double 0.33 \<noteq> 1 / 3" by code_simp
  from a b c show ?thesis
    unfolding three_incident_laps_timing no_laps_timing no_laps_counters
    by (simp add: noIncidents_def)
qed

text \<open>
  C2, amended. For every list of races and every client, each of the three fractions
  that \<open>analyzeIncidentTiming\<close> returns lies in [0,1] and is the double nearest to a whole
  number of hundredths, the three numbers of hundredths summing to 99, 100 or 101; so
  the sum of the fractions, taken exactly or in doubles, is within 0.01 + 1e-15 of 1.
  When the incident points counted over the three windows are zero, the fractions are
  0.33, 0.34 and 0.33, whose sum in doubles is 1.
\<close>

theorem analyzeIncidentTiming_fractions:
  "0 \<le> lap1_2 (timing (analyzeIncidentTiming api races cust))
   \<and> lap1_2 (timing (analyzeIncidentTiming api races cust)) \<le> 1
   \<and> 0 \<le> midRace (timing (analyzeIncidentTiming api races cust))
   \<and> midRace (timing (analyzeIncidentTiming api races cust)) \<le> 1
   \<and> 0 \<le> finalLap (timing (analyzeIncidentTiming api races cust))
   \<and> finalLap (timing (analyzeIncidentTiming api races cust)) \<le> 1
   \<and> (\<exists>n1 n2 n3.
        timing (analyzeIncidentTiming api races cust)
          = \<lparr>lap1_2 = double (real_of_int n1 / 100), midRace = double (real_of_int n2 / 100),
             finalLap = double (real_of_int n3 / 100)\<rparr>
        \<and> 0 \<le> n1 \<and> 0 \<le> n2 \<and> 0 \<le> n3 \<and> 99 \<le> n1 + n2 + n3 \<and> n1 + n2 + n3 \<le> 101)
   \<and> \<bar>lap1_2 (timing (analyzeIncidentTiming api races cust))
       + midRace (timing (analyzeIncidentTiming api races cust))
       + finalLap (timing (analyzeIncidentTiming api races cust)) - 1\<bar> \<le> 1 / 100 + 1 / 10 ^ 15
   \<and> \<bar>double (double (lap1_2 (timing (analyzeIncidentTiming api races cust))
                        + midRace (timing (analyzeIncidentTiming api races cust)))
               + finalLap (timing (analyzeIncidentTiming api races cust))) - 1\<bar>
       \<le> 1 / 100 + 1 / 10 ^ 15
   \<and> (lap1_2Incidents (raceLoop api cust races noIncidents)
       + midRaceIncidents (raceLoop api cust races noIncidents)
       + finalLapIncidents (raceLoop api cust races noIncidents) = 0
      \<longrightarrow> timing (analyzeIncidentTiming api races cust)
            = \<lparr>lap1_2 = double 0.33, midRace = double 0.34, finalLap = double 0.33\<rparr>
          \<and> double (double (lap1_2 (timing (analyzeIncidentTiming api races cust))
                             + midRace (timing (analyzeIncidentTiming api races cust)))
                    + finalLap (timing (analyzeIncidentTiming api races cust))) = 1)"
proof -
  let ?k = "raceLoop api cust races noIncidents"
  let ?T = "lap1_2Incidents ?k + midRaceIncidents ?k + finalLapIncidents ?k"
  have shape: "\<exists>n1 n2 n3.
      timing (analyzeIncidentTiming api races cust)
        = \<lparr>lap1_2 = double (real_of_int n1 / 100), midRace = double (real_of_int n2 / 100),
           finalLap = double (real_of_int n3 / 100)\<rparr>
      \<and> 0 \<le> n1 \<and> n1 \<le> 100 \<and> 0 \<le> n2 \<and> n2 \<le> 100 \<and> 0 \<le> n3 \<and> n3 \<le> 100
      \<and> 99 \<le> n1 + n2 + n3 \<and> n1 + n2 + n3 \<le> 101"
  proof (cases "?T = 0")
    case True
    then have "timing (analyzeIncidentTiming api races cust)
        = \<lparr>lap1_2 = double (real_of_int 33 / 100), midRace = double (real_of_int 34 / 100),
           finalLap = double (real_of_int 33 / 100)\<rparr>"
      by (simp add: analyzeIncidentTiming_def Let_def)
    moreover have "(0::int) \<le> 33 \<and> (33::int) \<le> 100 \<and> (0::int) \<le> 34 \<and> (34::int) \<le> 100
        \<and> (0::int) \<le> 33 \<and> (33::int) \<le> 100 \<and> (99::int) \<le> 33 + 34 + 33 \<and> (33::int) + 34 + 33 \<le> 101"
      by simp
    ultimately show ?thesis by blast
  next
    case False
    have ok: "timingCountersOk ?k"
      by (rule raceLoop_ok [OF noIncidents_ok])
    then have nn: "0 \<le> lap1_2Incidents ?k" "0 \<le> midRaceIncidents ?k" "0 \<le> finalLapIncidents ?k"
      by (simp_all add: timingCountersOk_def)
    with False have pos: "0 < ?T" by linarith
    from nn have le: "lap1_2Incidents ?k \<le> ?T" "midRaceIncidents ?k \<le> ?T" "finalLapIncidents ?k \<le> ?T"
      by linarith+
    have tm: "timing (analyzeIncidentTiming api races cust)
        = \<lparr>lap1_2 = roundedShare (lap1_2Incidents ?k) ?T,
           midRace = roundedShare (midRaceIncidents ?k) ?T,
           finalLap = roundedShare (finalLapIncidents ?k) ?T\<rparr>"
      using False by (simp add: analyzeIncidentTiming_def Let_def)
    show ?thesis
      unfolding tm roundedShare_def
      using hundredths_bounds(1,2) [OF nn(1) le(1) pos] hundredths_bounds(1,2) [OF nn(2) le(2) pos]
        hundredths_bounds(1,2) [OF nn(3) le(3) pos] hundredths_sum [OF nn pos refl]
      by blast
  qed
  then obtain n1 n2 n3 where
    tm: "timing (analyzeIncidentTiming api races cust)
        = \<lparr>lap1_2 = double (real_of_int n1 / 100), midRace = double (real_of_int n2 / 100),
           finalLap = double (real_of_int n3 / 100)\<rparr>"
    and n: "0 \<le> n1" "n1 \<le> 100" "0 \<le> n2" "n2 \<le> 100" "0 \<le> n3" "n3 \<le> 100"
      "99 \<le> n1 + n2 + n3" "n1 + n2 + n3 \<le> 101"
    by blast
  have range: "0 \<le> lap1_2 (timing (analyzeIncidentTiming api races cust))"
    "lap1_2 (timing (analyzeIncidentTiming api races cust)) \<le> 1"
    "0 \<le> midRace (timing (analyzeIncidentTiming api races cust))"
    "midRace (timing (analyzeIncidentTiming api races cust)) \<le> 1"
    "0 \<le> finalLap (timing (analyzeIncidentTiming api races cust))"
    "finalLap (timing (analyzeIncidentTiming api races cust)) \<le> 1"
    unfolding tm
    using hundredths_share(1,2) [OF n(1,2)] hundredths_share(1,2) [OF n(3,4)]
      hundredths_share(1,2) [OF n(5,6)]
    by simp_all
  have sums: "\<bar>lap1_2 (timing (analyzeIncidentTiming api races cust))
       + midRace (timing (analyzeIncidentTiming api races cust))
       + finalLap (timing (analyzeIncidentTiming api races cust)) - 1\<bar> \<le> 1 / 100 + 1 / 10 ^ 15"
    "\<bar>double (double (lap1_2 (timing (analyzeIncidentTiming api races cust))
                        + midRace (timing (analyzeIncidentTiming api races cust)))
               + finalLap (timing (analyzeIncidentTiming api races cust))) - 1\<bar>
       \<le> 1 / 100 + 1 / 10 ^ 15"
    unfolding tm using share_sum [OF n] by simp_all
  have zero: "?T = 0
      \<longrightarrow> timing (analyzeIncidentTiming api races cust)
            = \<lparr>lap1_2 = double 0.33, midRace = double 0.34, finalLap = double 0.33\<rparr>
          \<and> double (double (lap1_2 (timing (analyzeIncidentTiming api races cust))
                             + midRace (timing (analyzeIncidentTiming api races cust)))
                    + finalLap (timing (analyzeIncidentTiming api races cust))) = 1"
  proof
    assume "?T = 0"
    then have z: "timing (analyzeIncidentTiming api races cust)
        = \<lparr>lap1_2 = double 0.33, midRace = double 0.34, finalLap = double 0.33\<rparr>"
      by (simp add: analyzeIncidentTiming_def Let_def)
    show "timing (analyzeIncidentTiming api races cust)
            = \<lparr>lap1_2 = double 0.33, midRace = double 0.34, finalLap = double 0.33\<rparr>
          \<and> double (double (lap1_2 (timing (analyzeIncidentTiming api races cust))
                             + midRace (timing (analyzeIncidentTiming api races cust)))
                    + finalLap (timing (analyzeIncidentTiming api races cust))) = 1"
      unfolding z using default_sum by simp
  qed
  from shape have shape': "\<exists>n1 n2 n3.
        timing (analyzeIncidentTiming api races cust)
          = \<lparr>lap1_2 = double (real_of_int n1 / 100), midRace = double (real_of_int n2 / 100),
             finalLap = double (real_of_int n3 / 100)\<rparr>
        \<and> 0 \<le> n1 \<and> 0 \<le> n2 \<and> 0 \<le> n3 \<and> 99 \<le> n1 + n2 + n3 \<and> n1 + n2 + n3 \<le> 101"
    by blast
  from range shape' sums zero show ?thesis by blast
qed

theorem analyzeIncidentTiming_fractions_witness:
  "lap1_2Incidents (raceLoop (lap_client []) 7 [one_race] noIncidents)
     + midRaceIncidents (raceLoop (lap_client []) 7 [one_race] noIncidents)
     + finalLapIncidents (raceLoop (lap_client []) 7 [one_race] noIncidents) = 0
   \<and> timing (analyzeIncidentTiming (lap_client []) [one_race] 7)
       = \<lparr>lap1_2 = double 0.33, midRace = double 0.34, finalLap = double 0.33\<rparr>
   \<and> \<bar>lap1_2 (timing (analyzeIncidentTiming (lap_client three_incident_laps) [one_race] 7))
       + midRace (timing (analyzeIncidentTiming (lap_client three_incident_laps) [one_race] 7))
       + finalLap (timing (analyzeIncidentTiming (lap_client three_incident_laps) [one_race] 7)) - 1\<bar>
       \<le> 1 / 100 + 1 / 10 ^ 15"
proof -
  have h: "lap1_2Incidents (raceLoop (lap_client []) 7 [one_race] noIncidents)
     + midRaceIncidents (raceLoop (lap_client []) 7 [one_race] noIncidents)
     + finalLapIncidents (raceLoop (lap_client []) 7 [one_race] noIncidents) = 0"
    unfolding no_laps_counters by (simp add: noIncidents_def)
  from analyzeIncidentTiming_fractions [of "lap_client []" "[one_race]" 7] h
    analyzeIncidentTiming_fractions [of "lap_client three_incident_laps" "[one_race]" 7]
  show ?thesis by blast
qed

subsection \<open>The risk score\<close>

lemma double_exact_halves:
  "double (1 / 2) = 1 / 2" "double (3 / 2) = 3 / 2" "double (5 / 2) = 5 / 2"
  using double_exact_values by simp_all

lemma timingModifier_spec:
  "(let timingModifier = 0;
        timingModifier =
          (if early > double 0.4 then double (timingModifier + 1.5)
           else if early > double 0.3 then double (timingModifier + 0.5)
           else timingModifier)
    in (if late > double 0.3 then double (timingModifier + 1.0)
        else if late > double 0.25 then double (timingModifier + 0.5)
        else timingModifier))
   = double
       ((if early > double 0.4 then 1.5 else if early > double 0.3 then 0.5 else 0)
        + (if late > double 0.3 then 1.0 else if late > double 0.25 then 0.5 else 0))"
  by (simp add: Let_def double_zero double_exact_values double_exact_halves)

lemma baseScore_spec:
  "(if a \<le> 2 then double (a * 1.5)
    else if a \<le> 5 then double (3 + double (double (a - 2) * 1.0))
    else double (6 + min (double (double (a - 5) * double 0.8)) 4)) = spec_base a"
  by (simp add: spec_base_def double_idem)

lemma calculateRiskScore_spec:
  "calculateRiskScore a tm
     = round_one_decimal (min (double (spec_base (double a) + spec_modifier tm)) 10)"
proof -
  have t: "(10.0::real) = 10" by simp
  show ?thesis
    unfolding calculateRiskScore_def spec_modifier_def round_one_decimal_def Math_round_def
      timingModifier_spec [symmetric]
    unfolding Let_def baseScore_spec t
    by (rule refl)
qed

lemma spec_base_low: "a \<le> 2 \<Longrightarrow> spec_base a \<le> 3"
proof -
  assume "a \<le> 2"
  then have "a * 1.5 \<le> 3" by simp
  from double_mono [OF this] show ?thesis
    using \<open>a \<le> 2\<close> by (simp add: spec_base_def double_exact_values)
qed

lemma spec_base_mid: "2 < a \<Longrightarrow> a \<le> 5 \<Longrightarrow> 3 \<le> spec_base a \<and> spec_base a \<le> 6"
proof -
  assume a: "2 < a" "a \<le> 5"
  then have "0 \<le> a - 2" "a - 2 \<le> 3" by simp_all
  then have "0 \<le> double (a - 2)" "double (a - 2) \<le> 3"
    using double_mono [of 0 "a - 2"] double_mono [of "a - 2" 3]
    by (simp_all add: double_zero double_exact_values)
  then have "3 \<le> 3 + double (a - 2)" "3 + double (a - 2) \<le> 6" by simp_all
  then have "3 \<le> double (3 + double (a - 2))" "double (3 + double (a - 2)) \<le> 6"
    using double_mono [of 3 "3 + double (a - 2)"] double_mono [of "3 + double (a - 2)" 6]
    by (simp_all add: double_exact_values)
  with a show ?thesis by (simp add: spec_base_def)
qed

lemma double_08_pos: "0 < double 0.8"
  by code_simp

lemma spec_base_high: "5 < a \<Longrightarrow> 6 \<le> spec_base a"
proof -
  assume a: "5 < a"
  then have "0 \<le> a - 5" by simp
  then have "0 \<le> double (a - 5)"
    using double_mono [of 0 "a - 5"] by (simp add: double_zero)
  then have "0 \<le> double (a - 5) * double 0.8"
    using double_08_pos by simp
  then have "0 \<le> double (double (a - 5) * double 0.8)"
    using double_mono [of 0 "double (a - 5) * double 0.8"] by (simp add: double_zero)
  then have "6 \<le> 6 + min (double (double (a - 5) * double 0.8)) 4" by simp
  then have "6 \<le> double (6 + min (double (double (a - 5) * double 0.8)) 4)"
    using double_mono [of 6 "6 + min (double (double (a - 5) * double 0.8)) 4"]
    by (simp add: double_exact_values)
  with a show ?thesis by (simp add: spec_base_def)
qed

lemma spec_base_high_mono:
  assumes "5 < a1" "a1 \<le> a2"
  shows "spec_base a1 \<le> spec_base a2"
proof -
  from assms have "a1 - 5 \<le> a2 - 5" by simp
  then have "double (a1 - 5) \<le> double (a2 - 5)" by (rule double_mono)
  then have "double (a1 - 5) * double 0.8 \<le> double (a2 - 5) * double 0.8"
    using double_08_pos by simp
  then have "double (double (a1 - 5) * double 0.8) \<le> double (double (a2 - 5) * double 0.8)"
    by (rule double_mono)
  then have "6 + min (double (double (a1 - 5) * double 0.8)) 4
             \<le> 6 + min (double (double (a2 - 5) * double 0.8)) 4"
    by simp
  then have "double (6 + min (double (double (a1 - 5) * double 0.8)) 4)
             \<le> double (6 + min (double (double (a2 - 5) * double 0.8)) 4)"
    by (rule double_mono)
  with assms show ?thesis by (simp add: spec_base_def)
qed

lemma spec_base_mono:
  assumes "a1 \<le> a2"
  shows "spec_base a1 \<le> spec_base a2"
proof -
  consider (ll) "a2 \<le> 2" | (lm) "a1 \<le> 2" "2 < a2" "a2 \<le> 5" | (lh) "a1 \<le> 2" "5 < a2"
    | (mm) "2 < a1" "a2 \<le> 5" | (mh) "2 < a1" "a1 \<le> 5" "5 < a2" | (hh) "5 < a1"
    by linarith
  then show ?thesis
  proof cases
    case ll
    with assms have "a1 * 1.5 \<le> a2 * 1.5" by simp
    from double_mono [OF this] show ?thesis
      using ll assms by (simp add: spec_base_def)
  next
    case lm
    then show ?thesis using spec_base_low [of a1] spec_base_mid [of a2] by simp
  next
    case lh
    then show ?thesis using spec_base_low [of a1] spec_base_high [of a2] by simp
  next
    case mm
    with assms have "a1 - 2 \<le> a2 - 2" by simp
    then have "double (a1 - 2) \<le> double (a2 - 2)" by (rule double_mono)
    then have "3 + double (a1 - 2) \<le> 3 + double (a2 - 2)" by simp
    from double_mono [OF this] show ?thesis
      using mm assms by (simp add: spec_base_def)
  next
    case mh
    then show ?thesis using spec_base_mid [of a1] spec_base_high [of a2] by simp
  next
    case hh
    then show ?thesis using assms by (rule spec_base_high_mono)
  qed
qed

lemma spec_base_nonneg: "0 \<le> a \<Longrightarrow> 0 \<le> spec_base a"
proof -
  assume a: "0 \<le> a"
  consider (l) "a \<le> 2" | (m) "2 < a" "a \<le> 5" | (h) "5 < a" by linarith
  then show ?thesis
  proof cases
    case l
    from a have "0 \<le> a * 1.5" by simp
    from double_mono [OF this] show ?thesis
      using l by (simp add: spec_base_def double_zero)
  next
    case m
    then show ?thesis using spec_base_mid [of a] by simp
  next
    case h
    then show ?thesis using spec_base_high [of a] by simp
  qed
qed

lemma spec_modifier_nonneg: "0 \<le> spec_modifier tm"
proof -
  have "0 \<le> (if double (lap1_2 tm) > double 0.4 then 1.5
               else if double (lap1_2 tm) > double 0.3 then 0.5 else (0::real))
             + (if double (finalLap tm) > double 0.3 then 1.0
                else if double (finalLap tm) > double 0.25 then 0.5 else 0)"
    by simp
  from double_mono [OF this] show ?thesis
    unfolding spec_modifier_def by (simp only: double_zero)
qed

lemma round_one_decimal_mono: "x \<le> y \<Longrightarrow> round_one_decimal x \<le> round_one_decimal y"
proof -
  assume "x \<le> y"
  then have "x * 10 \<le> y * 10" by simp
  then have "double (x * 10) \<le> double (y * 10)" by (rule double_mono)
  then have "\<lfloor>double (x * 10) + 1 / 2\<rfloor> \<le> \<lfloor>double (y * 10) + 1 / 2\<rfloor>"
    by (intro floor_mono) simp
  then have "real_of_int \<lfloor>double (x * 10) + 1 / 2\<rfloor> / 10
             \<le> real_of_int \<lfloor>double (y * 10) + 1 / 2\<rfloor> / 10"
    by simp
  then show ?thesis unfolding round_one_decimal_def by (rule double_mono)
qed

lemma round_one_decimal_le: "x \<le> 10 \<Longrightarrow> round_one_decimal x \<le> 10"
proof -
  assume "x \<le> 10"
  then have "x * 10 \<le> 100" by simp
  then have "double (x * 10) \<le> 100"
    using double_mono [of "x * 10" 100] by (simp add: double_exact_values)
  then have "double (x * 10) + 1 / 2 < 101" by simp
  then have "\<lfloor>double (x * 10) + 1 / 2\<rfloor> < 101" by (simp add: floor_less_iff)
  then have "\<lfloor>double (x * 10) + 1 / 2\<rfloor> \<le> 100" by simp
  then have "real_of_int \<lfloor>double (x * 10) + 1 / 2\<rfloor> \<le> 100" by linarith
  then have "real_of_int \<lfloor>double (x * 10) + 1 / 2\<rfloor> / 10 \<le> 10" by simp
  then show ?thesis
    unfolding round_one_decimal_def
    using double_mono [of "real_of_int \<lfloor>double (x * 10) + 1 / 2\<rfloor> / 10" 10]
    by (simp add: double_exact_values)
qed

lemma round_one_decimal_nonneg: "0 \<le> x \<Longrightarrow> 0 \<le> round_one_decimal x"
proof -
  assume "0 \<le> x"
  then have "0 \<le> x * 10" by simp
  then have "0 \<le> double (x * 10)"
    using double_mono [of 0 "x * 10"] by (simp add: double_zero)
  then have "0 \<le> double (x * 10) + 1 / 2" by simp
  then have "0 \<le> \<lfloor>double (x * 10) + 1 / 2\<rfloor>" by (simp add: le_floor_iff)
  then have "0 \<le> real_of_int \<lfloor>double (x * 10) + 1 / 2\<rfloor> / 10" by simp
  then show ?thesis
    unfolding round_one_decimal_def
    using double_mono [of 0 "real_of_int \<lfloor>double (x * 10) + 1 / 2\<rfloor> / 10"]
    by (simp add: double_zero)
qed

text \<open>
  The model computes what the program computes at averages where rounding decides the
  result: 7 incidents in 10 races give the average 0.7, whose base score is the double
  1.0499999999999998, and the score 1.0; the averages 1.3 and 8.5 with the default
  timing and with a first-laps share of one half.
\<close>

lemma calculateRiskScore_examples:
  "calculateRiskScore 0.7 \<lparr>lap1_2 = 0, midRace = 1, finalLap = 0\<rparr> = 1"
  "calculateRiskScore 1.3 \<lparr>lap1_2 = double 0.33, midRace = double 0.34, finalLap = double 0.33\<rparr>
     = double 3.5"
  "calculateRiskScore 8.5 \<lparr>lap1_2 = 0.5, midRace = 0.3, finalLap = 0.2\<rparr> = 10"
  by code_simp+

text \<open>
  C3. For every fixed timing, \<open>calculateRiskScore\<close> is monotonically non-decreasing in the
  average incidents; for every input the score is at most 10, and for every average that
  is not negative (an average of incident counts) it lies in [0,10]; and the score is
  min(base + timing modifier, 10) rounded to one decimal, with the base and the modifier
  as the specification gives them and every operation rounded to a double as the program
  rounds it.
\<close>

theorem calculateRiskScore_monotone_clamped:
  "(a1 \<le> a2 \<longrightarrow> calculateRiskScore a1 tm \<le> calculateRiskScore a2 tm)
   \<and> calculateRiskScore a tm \<le> 10
   \<and> (0 \<le> a \<longrightarrow> 0 \<le> calculateRiskScore a tm \<and> calculateRiskScore a tm \<le> 10)
   \<and> calculateRiskScore a tm
       = round_one_decimal (min (double (spec_base (double a) + spec_modifier tm)) 10)"
proof -
  have mono: "a1 \<le> a2 \<longrightarrow> calculateRiskScore a1 tm \<le> calculateRiskScore a2 tm"
  proof
    assume "a1 \<le> a2"
    then have "double a1 \<le> double a2" by (rule double_mono)
    then have "spec_base (double a1) \<le> spec_base (double a2)" by (rule spec_base_mono)
    then have "spec_base (double a1) + spec_modifier tm \<le> spec_base (double a2) + spec_modifier tm"
      by simp
    then have "double (spec_base (double a1) + spec_modifier tm)
               \<le> double (spec_base (double a2) + spec_modifier tm)"
      by (rule double_mono)
    then have "min (double (spec_base (double a1) + spec_modifier tm)) 10
               \<le> min (double (spec_base (double a2) + spec_modifier tm)) 10"
      by (simp add: min_def)
    then show "calculateRiskScore a1 tm \<le> calculateRiskScore a2 tm"
      unfolding calculateRiskScore_spec by (rule round_one_decimal_mono)
  qed
  have upper: "calculateRiskScore a tm \<le> 10"
    unfolding calculateRiskScore_spec by (rule round_one_decimal_le) simp
  have lower: "0 \<le> a \<longrightarrow> 0 \<le> calculateRiskScore a tm"
  proof
    assume "0 \<le> a"
    then have "0 \<le> double a"
      using double_mono [of 0 a] by (simp add: double_zero)
    then have "0 \<le> spec_base (double a) + spec_modifier tm"
      using spec_base_nonneg [of "double a"] spec_modifier_nonneg [of tm] by simp
    then have "0 \<le> double (spec_base (double a) + spec_modifier tm)"
      using double_mono [of 0 "spec_base (double a) + spec_modifier tm"]
      by (simp add: double_zero)
    then have "0 \<le> min (double (spec_base (double a) + spec_modifier tm)) 10"
      by simp
    then show "0 \<le> calculateRiskScore a tm"
      unfolding calculateRiskScore_spec by (rule round_one_decimal_nonneg)
  qed
  from mono upper lower calculateRiskScore_spec show ?thesis by blast
qed

theorem calculateRiskScore_monotone_clamped_witness:
  "(0.6::real) \<le> 0.7
   \<and> calculateRiskScore 0.6 \<lparr>lap1_2 = 0, midRace = 1, finalLap = 0\<rparr>
       \<le> calculateRiskScore 0.7 \<lparr>lap1_2 = 0, midRace = 1, finalLap = 0\<rparr>
   \<and> (0::real) \<le> 0.7
   \<and> 0 \<le> calculateRiskScore 0.7 \<lparr>lap1_2 = 0, midRace = 1, finalLap = 0\<rparr>
   \<and> calculateRiskScore 0.7 \<lparr>lap1_2 = 0, midRace = 1, finalLap = 0\<rparr> \<le> 10
   \<and> calculateRiskScore 0.7 \<lparr>lap1_2 = 0, midRace = 1, finalLap = 0\<rparr>
       = round_one_decimal
           (min (double (spec_base (double 0.7)
                   + spec_modifier \<lparr>lap1_2 = 0, midRace = 1, finalLap = 0\<rparr>)) 10)"
  using calculateRiskScore_monotone_clamped
    [of "0.6" "0.7" "\<lparr>lap1_2 = 0, midRace = 1, finalLap = 0\<rparr>" "0.7"]
  by simp

subsection \<open>Risk classification\<close>

text \<open>
  C4. \<open>classifyRisk\<close> returns LOW for a score below 4, MODERATE for a score from 4 up to
  but not including 7, and HIGH for a score of 7 or more; at the two thresholds:
  3.9 is LOW, 4.0 is MODERATE, 6.9 is MODERATE and 7.0 is HIGH.
\<close>

theorem classifyRisk_bands:
  "(score < 4 \<longrightarrow> classifyRisk score = LOW)
   \<and> (4 \<le> score \<and> score < 7 \<longrightarrow> classifyRisk score = MODERATE)
   \<and> (7 \<le> score \<longrightarrow> classifyRisk score = HIGH)
   \<and> classifyRisk 3.9 = LOW
   \<and> classifyRisk 4.0 = MODERATE
   \<and> classifyRisk 6.9 = MODERATE
   \<and> classifyRisk 7.0 = HIGH"
  by (simp add: classifyRisk_def)

theorem classifyRisk_bands_witness:
  "(2::real) < 4 \<and> classifyRisk 2 = LOW
   \<and> (4::real) \<le> 5 \<and> (5::real) < 7 \<and> classifyRisk 5 = MODERATE
   \<and> (7::real) \<le> 9 \<and> classifyRisk 9 = HIGH"
  using classifyRisk_bands [of 2] classifyRisk_bands [of 5] classifyRisk_bands [of 9]
  by simp
subsection \<open>The error of analyzeDriver\<close>

lemma slice0_empty: "1 \<le> n \<Longrightarrow> slice0 xs n = [] \<longleftrightarrow> xs = []"
  unfolding slice0_def by (auto simp: take_eq_Nil)

lemma sorted_races_empty: "sort_key f xs = [] \<longleftrightarrow> xs = []"
  by (metis length_0_conv length_sort)

lemma analyzeDriver_result:
  "analyzeDriver api t30 t7 cust n =
     (case map_option
             (\<lambda>races. if searchRaceResults api cust t30 = [] then races
                      else sort_key (\<lambda>r. - sessionStartTime r) races)
             (combinedLookup api t30 cust) of
        None \<Rightarrow> Inl RequestFailed
      | Some races \<Rightarrow>
          if slice0 races n = [] then Inl (NoRecentRacesFound cust)
          else Inr (buildProfile api t7 cust races (slice0 races n)))"
proof (cases "searchRaceResults api cust t30")
  case Nil
  then show ?thesis
    by (simp add: analyzeDriver_def combinedLookup_def Let_def split: option.splits)
next
  case (Cons r rs)
  then show ?thesis
    by (simp add: analyzeDriver_def combinedLookup_def Let_def)
qed

text \<open>
  C6, as the claim states it, fails. Asked to analyze 0 races of a driver for whom the
  search finds a race, \<open>analyzeDriver\<close> fails with the error naming the driver: the
  test is on the races kept by \<^verbatim>\<open>slice(0, numRaces)\<close>, not on the races found.
\<close>

theorem analyzeDriver_zero_numRaces_counterexample:
  "combinedLookup (lap_client []) 0 7 = Some [one_race]
   \<and> analyzeDriver (lap_client []) 0 0 7 0 = Inl (NoRecentRacesFound 7)"
  by (simp add: combinedLookup_def analyzeDriver_def lap_client_def slice0_def)

text \<open>
  C6, amended. When at least one race is to be analyzed (\<open>numRaces \<ge> 1\<close>),
  \<open>analyzeDriver\<close> fails with the error naming the participant if and only if the
  combined lookup (the 30-day search, then the fallback when the search is empty) finds
  zero races; whenever it finds at least one race a profile is returned; and the only
  other outcome is that the fallback request itself fails, which is passed on.
\<close>

theorem analyzeDriver_no_history:
  assumes "1 \<le> numRaces"
  shows "(analyzeDriver api t30 t7 cust numRaces = Inl (NoRecentRacesFound cust)
            \<longleftrightarrow> combinedLookup api t30 cust = Some [])
       \<and> (\<forall>races. combinedLookup api t30 cust = Some races \<and> races \<noteq> []
            \<longrightarrow> (\<exists>profile. analyzeDriver api t30 t7 cust numRaces = Inr profile))
       \<and> (analyzeDriver api t30 t7 cust numRaces = Inl RequestFailed
            \<longleftrightarrow> combinedLookup api t30 cust = None)"
proof (cases "combinedLookup api t30 cust")
  case None
  then show ?thesis
    unfolding analyzeDriver_result [of api t30 t7 cust numRaces]
    by simp
next
  case (Some races)
  show ?thesis
  proof (cases "races = []")
    case True
    with Some show ?thesis
      unfolding analyzeDriver_result [of api t30 t7 cust numRaces]
      by (simp add: slice0_empty [OF assms] sorted_races_empty del: sort_key_simps)
  next
    case False
    with Some show ?thesis
      unfolding analyzeDriver_result [of api t30 t7 cust numRaces]
      by (simp add: slice0_empty [OF assms] sorted_races_empty del: sort_key_simps)
  qed
qed

theorem analyzeDriver_no_history_witness:
  "(1::int) \<le> 10
   \<and> combinedLookup empty_client 0 7 = Some []
   \<and> analyzeDriver empty_client 0 0 7 10 = Inl (NoRecentRacesFound 7)
   \<and> combinedLookup (lap_client three_incident_laps) 0 7 = Some [one_race]
   \<and> (\<exists>profile. analyzeDriver (lap_client three_incident_laps) 0 0 7 10 = Inr profile)"
proof -
  have h: "(1::int) \<le> 10" by simp
  have e: "combinedLookup empty_client 0 7 = Some []"
    by (simp add: combinedLookup_def empty_client_def)
  have l: "combinedLookup (lap_client three_incident_laps) 0 7 = Some [one_race]"
    by (simp add: combinedLookup_def lap_client_def)
  from analyzeDriver_no_history [OF h, of empty_client 0 0 7] e
  have a: "analyzeDriver empty_client 0 0 7 10 = Inl (NoRecentRacesFound 7)"
    by simp
  from analyzeDriver_no_history [OF h, of "lap_client three_incident_laps" 0 0 7] l
  have b: "\<exists>profile. analyzeDriver (lap_client three_incident_laps) 0 0 7 10 = Inr profile"
    by simp
  from h e a l b show ?thesis by simp
qed

subsection \<open>The field recommendation\<close>

lemma double_risk_ge:
  "5 \<le> r \<Longrightarrow> 5 \<le> double r" "7 \<le> r \<Longrightarrow> 7 \<le> double r"
  using double_mono [of 5 r] double_mono [of 7 r] double_exact_values by simp_all

text \<open>
  C7. With the overall risk and the two safety ratings read as doubles, and the
  safety-rating buffer computed as the code computes it (the rounded difference
  \<open>sr - srGoal\<close>, \<open>srBufferOf\<close>, compared with the double nearest to 0.2): the
  recommendation is CONSERVATIVE exactly when the buffer is below 0.2 and the overall
  risk is at least 5, or the overall risk is at least 7, or the high-risk count is at
  least 5; otherwise it is MODERATE exactly when the overall risk is at least 5 or the
  high-risk count is at least 3; otherwise it is AGGRESSIVE. With 6 high-risk
  participants and a mean score of 7.2 it is CONSERVATIVE, for every user profile.
\<close>

theorem generateGridRecommendation_cases:
  "(generateGridRecommendation overallRisk highRiskCount u = CONSERVATIVE
      \<longleftrightarrow> (srBufferOf u < double 0.2 \<and> double overallRisk \<ge> 5) \<or> double overallRisk \<ge> 7
          \<or> highRiskCount \<ge> 5)
   \<and> (generateGridRecommendation overallRisk highRiskCount u = MODERATE_approach
      \<longleftrightarrow> \<not> ((srBufferOf u < double 0.2 \<and> double overallRisk \<ge> 5) \<or> double overallRisk \<ge> 7
            \<or> highRiskCount \<ge> 5)
          \<and> (double overallRisk \<ge> 5 \<or> highRiskCount \<ge> 3))
   \<and> (generateGridRecommendation overallRisk highRiskCount u = AGGRESSIVE
      \<longleftrightarrow> \<not> ((srBufferOf u < double 0.2 \<and> double overallRisk \<ge> 5) \<or> double overallRisk \<ge> 7
            \<or> highRiskCount \<ge> 5)
          \<and> \<not> (double overallRisk \<ge> 5 \<or> highRiskCount \<ge> 3))
   \<and> generateGridRecommendation (double overallRisk) highRiskCount u
       = generateGridRecommendation overallRisk highRiskCount u
   \<and> generateGridRecommendation 7.2 6 u = CONSERVATIVE"
proof -
  have "(7::real) \<le> 7.2" by simp
  then have "7 \<le> double 7.2" by (rule double_risk_ge(2))
  then show ?thesis
    unfolding generateGridRecommendation_def srBufferOf_def Let_def double_idem by auto
qed

text \<open>
  The cases at the boundary of the buffer: the ratings 1.2 and 1.0 differ by
  0.19999999999999996 as doubles, which is below 0.2, and the ratings 0.25 and 0.05
  differ by 0.2 exactly; 2.2 and 2.0 differ by 0.20000000000000018.
\<close>

theorem generateGridRecommendation_cases_witness:
  "generateGridRecommendation 5.5 1 (example_user 1.2 1.0) = CONSERVATIVE
   \<and> generateGridRecommendation 5.5 1 (example_user 0.25 0.05) = MODERATE_approach
   \<and> generateGridRecommendation 5.5 1 (example_user 2.2 2.0) = MODERATE_approach
   \<and> generateGridRecommendation 5.5 1 (example_user 2.1 2.0) = CONSERVATIVE
   \<and> generateGridRecommendation 3.0 4 (example_user 3.0 2.0) = MODERATE_approach
   \<and> generateGridRecommendation 3.0 2 (example_user 3.0 2.0) = AGGRESSIVE
   \<and> generateGridRecommendation 7.2 6 (example_user 3.0 2.0) = CONSERVATIVE"
proof -
  have b1: "srBufferOf (example_user 1.2 1.0) < double 0.2" by code_simp
  have b2: "\<not> srBufferOf (example_user 0.25 0.05) < double 0.2" by code_simp
  have b3: "\<not> srBufferOf (example_user 2.2 2.0) < double 0.2" by code_simp
  have b4: "srBufferOf (example_user 2.1 2.0) < double 0.2" by code_simp
  have r1: "5 \<le> double 5.5" "\<not> 7 \<le> double 5.5" by code_simp+
  have r2: "\<not> 5 \<le> double 3.0" by code_simp
  show ?thesis
    using generateGridRecommendation_cases [of "5.5" 1 "example_user 1.2 1.0"]
      generateGridRecommendation_cases [of "5.5" 1 "example_user 0.25 0.05"]
      generateGridRecommendation_cases [of "5.5" 1 "example_user 2.2 2.0"]
      generateGridRecommendation_cases [of "5.5" 1 "example_user 2.1 2.0"]
      generateGridRecommendation_cases [of "3.0" 4 "example_user 3.0 2.0"]
      generateGridRecommendation_cases [of "3.0" 2 "example_user 3.0 2.0"]
      generateGridRecommendation_cases [of "7.2" 6 "example_user 3.0 2.0"]
      b1 b2 b3 b4 r1 r2
    by simp
qed

subsection \<open>Gating of alerts\<close>

lemma toLowerCase_off: "toLowerCase ''off'' = ''off''" "toLowerCase ''OFF'' = ''off''"
  by (simp_all add: toLowerCase_def toLowerCase_char_def)

text \<open>
  C8, as the claim states it, fails for two of the four kinds, which have no switch.
  With every variable unset both switches of a race session are on, yet
  \<open>playAlert Clear\<close> starts no sound; with every variable \<^verbatim>\<open>off\<close> both switches are
  off, yet \<open>playAlert Warning\<close> plays. And a variable set to \<^verbatim>\<open>OFF\<close>, which is not the
  value \<^verbatim>\<open>off\<close>, still turns its switch off.
\<close>

theorem playAlert_ungated_counterexample:
  "danger (sessionConfig (alertConfig env_unset) Race)
   \<and> incident_switch (sessionConfig (alertConfig env_unset) Race)
   \<and> playAlert (alertConfig env_unset) Race Clear = None
   \<and> \<not> danger (sessionConfig (alertConfig env_all_off) Race)
   \<and> \<not> incident_switch (sessionConfig (alertConfig env_all_off) Race)
   \<and> playAlert (alertConfig env_all_off) Race Warning = Some Beep
   \<and> ALERTS_RACE_DANGER env_race_danger_OFF \<noteq> Some ''off''
   \<and> \<not> danger (sessionConfig (alertConfig env_race_danger_OFF) Race)"
  by (simp add: playAlert_def sessionConfig_def alertConfig_def envSwitch_def
      env_unset_def env_all_off_def env_race_danger_OFF_def toLowerCase_off)

text \<open>
  C8, amended. Of the four alert kinds, danger and incident are gated, each by its own
  switch of the current session type: \<open>playAlert\<close> is suppressed for them exactly when
  that switch is off. A warning is never gated and always plays; a clear alert never
  plays. The eight switches (four session types times the two categories danger and
  incident) are read each from its own environment variable, and a switch is on unless
  its variable is set to a value that is \<^verbatim>\<open>off\<close> once put in lower case.
\<close>

theorem playAlert_gating:
  "(playAlert cfg st Danger = None \<longleftrightarrow> \<not> danger (sessionConfig cfg st))
   \<and> (playAlert cfg st Incident = None \<longleftrightarrow> \<not> incident_switch (sessionConfig cfg st))
   \<and> playAlert cfg st Warning = Some Beep
   \<and> playAlert cfg st Clear = None
   \<and> danger (sessionConfig (alertConfig env) Practice) = envSwitch (ALERTS_PRACTICE_DANGER env)
   \<and> incident_switch (sessionConfig (alertConfig env) Practice) = envSwitch (ALERTS_PRACTICE_INCIDENT env)
   \<and> danger (sessionConfig (alertConfig env) Qualify) = envSwitch (ALERTS_QUALIFY_DANGER env)
   \<and> incident_switch (sessionConfig (alertConfig env) Qualify) = envSwitch (ALERTS_QUALIFY_INCIDENT env)
   \<and> danger (sessionConfig (alertConfig env) Race) = envSwitch (ALERTS_RACE_DANGER env)
   \<and> incident_switch (sessionConfig (alertConfig env) Race) = envSwitch (ALERTS_RACE_INCIDENT env)
   \<and> danger (sessionConfig (alertConfig env) Warmup) = envSwitch (ALERTS_WARMUP_DANGER env)
   \<and> incident_switch (sessionConfig (alertConfig env) Warmup) = envSwitch (ALERTS_WARMUP_INCIDENT env)
   \<and> (envSwitch v \<longleftrightarrow> v = None \<or> (\<exists>s. v = Some s \<and> toLowerCase s \<noteq> ''off''))"
proof -
  have p: "(playAlert cfg st Danger = None \<longleftrightarrow> \<not> danger (sessionConfig cfg st))
      \<and> (playAlert cfg st Incident = None \<longleftrightarrow> \<not> incident_switch (sessionConfig cfg st))
      \<and> playAlert cfg st Warning = Some Beep
      \<and> playAlert cfg st Clear = None"
    by (simp add: playAlert_def)
  have c: "danger (sessionConfig (alertConfig env) Practice) = envSwitch (ALERTS_PRACTICE_DANGER env)
      \<and> incident_switch (sessionConfig (alertConfig env) Practice) = envSwitch (ALERTS_PRACTICE_INCIDENT env)
      \<and> danger (sessionConfig (alertConfig env) Qualify) = envSwitch (ALERTS_QUALIFY_DANGER env)
      \<and> incident_switch (sessionConfig (alertConfig env) Qualify) = envSwitch (ALERTS_QUALIFY_INCIDENT env)
      \<and> danger (sessionConfig (alertConfig env) Race) = envSwitch (ALERTS_RACE_DANGER env)
      \<and> incident_switch (sessionConfig (alertConfig env) Race) = envSwitch (ALERTS_RACE_INCIDENT env)
      \<and> danger (sessionConfig (alertConfig env) Warmup) = envSwitch (ALERTS_WARMUP_DANGER env)
      \<and> incident_switch (sessionConfig (alertConfig env) Warmup) = envSwitch (ALERTS_WARMUP_INCIDENT env)"
    by (simp add: sessionConfig_def alertConfig_def)
  have e: "envSwitch v \<longleftrightarrow> v = None \<or> (\<exists>s. v = Some s \<and> toLowerCase s \<noteq> ''off'')"
    by (cases v) (simp_all add: envSwitch_def)
  from p c e show ?thesis by blast
qed

theorem playAlert_gating_witness:
  "\<not> danger (sessionConfig (alertConfig env_race_danger_OFF) Race)
   \<and> playAlert (alertConfig env_race_danger_OFF) Race Danger = None
   \<and> incident_switch (sessionConfig (alertConfig env_race_danger_OFF) Race)
   \<and> playAlert (alertConfig env_race_danger_OFF) Race Incident = Some Asterisk
   \<and> playAlert (alertConfig env_race_danger_OFF) Practice Danger = Some ExclamationTwice"
proof -
  have s: "envSwitch (Some ''OFF'') = False" "envSwitch None = True"
    by (simp_all add: envSwitch_def toLowerCase_off)
  have v: "ALERTS_RACE_DANGER env_race_danger_OFF = Some ''OFF''"
    "ALERTS_RACE_INCIDENT env_race_danger_OFF = None"
    "ALERTS_PRACTICE_DANGER env_race_danger_OFF = None"
    by (simp_all add: env_race_danger_OFF_def env_unset_def)
  have i: "playAlert (alertConfig env_race_danger_OFF) Race Incident = Some Asterisk"
    "playAlert (alertConfig env_race_danger_OFF) Practice Danger = Some ExclamationTwice"
    by (simp_all add: playAlert_def sessionConfig_def alertConfig_def v s)
  from playAlert_gating [of "alertConfig env_race_danger_OFF" Race env_race_danger_OFF "Some ''OFF''"] v s i
  show ?thesis by simp
qed

subsection \<open>Resetting the session state\<close>

text \<open>
  C9. For every state, \<open>resetSessionState\<close> puts every session-scoped global back to
  the value of its declaration: the driver map, the analyzed-driver map, the map of
  session incidents, the danger-zone set, the local car slot, the phase (WAITING), the
  session type, the flag of the pre-race analysis, the track and series names, the two
  incident counters and the token-refresh timer (which is cleared when one is set). The
  client and the authenticated flag are left as they were, and so are the globals that
  are not session state (the SDK handle and the two service flags).
\<close>

theorem resetSessionState_frame:
  "fst (resetSessionState s) =
     initialState\<lparr>client := client s, authenticated := authenticated s,
       iracingSDK := iracingSDK s, isRunning := isRunning s, isServiceMode := isServiceMode s\<rparr>
   \<and> sessionDrivers (fst (resetSessionState s)) = []
   \<and> analyzedDrivers (fst (resetSessionState s)) = []
   \<and> driverSessionIncidents (fst (resetSessionState s)) = Map.empty
   \<and> driversInDangerZone (fst (resetSessionState s)) = {}
   \<and> myCarIdx (fst (resetSessionState s)) = - 1
   \<and> currentPhase (fst (resetSessionState s)) = WAITING
   \<and> currentSessionType (fst (resetSessionState s)) = Race
   \<and> preRaceAnalysisComplete (fst (resetSessionState s)) = False
   \<and> trackName (fst (resetSessionState s)) = []
   \<and> seriesName (fst (resetSessionState s)) = []
   \<and> mySessionIncidents (fst (resetSessionState s)) = 0
   \<and> lastKnownIncidents (fst (resetSessionState s)) = - 1
   \<and> tokenRefreshInterval (fst (resetSessionState s)) = None
   \<and> snd (resetSessionState s) = (case tokenRefreshInterval s of None \<Rightarrow> [] | Some timer \<Rightarrow> [timer])
   \<and> client (fst (resetSessionState s)) = client s
   \<and> authenticated (fst (resetSessionState s)) = authenticated s"
  by (cases s) (simp add: resetSessionState_def initialState_def split: option.splits)

subsection \<open>Edge-triggered danger alerts\<close>

lemma dangerLoop_eq:
  "dangerLoop cfg s threats (zone, out) =
     (zone \<union> set (map (\<lambda>n. carIdx (driver n)) (filter gapBelowThreshold threats)),
      out @ map (\<lambda>n. DangerAlert n (playAlert cfg (currentSessionType s) Danger))
              (filter (\<lambda>n. gapBelowThreshold n \<and> carIdx (driver n) \<notin> driversInDangerZone s) threats))"
  by (induction threats arbitrary: zone out) auto

lemma alertedSlots_alerts:
  "alertedSlots (map (\<lambda>n. DangerAlert n (f n)) ns) = map (\<lambda>n. carIdx (driver n)) ns"
  by (induction ns) simp_all

lemma displayRaceStatus_zone:
  "driversInDangerZone (fst (displayRaceStatus cfg s position lap nearby totalCars incidentCount))
     = slotsInZone nearby"
  by (simp add: displayRaceStatus_def Let_def dangerLoop_eq slotsInZone_def)

lemma displayRaceStatus_alerts:
  "alertedSlots (snd (displayRaceStatus cfg s position lap nearby totalCars incidentCount))
     = map (\<lambda>n. carIdx (driver n))
         (filter (\<lambda>n. (riskLevel (driver n) = ''HIGH'' \<and> gapBelowThreshold n)
                       \<and> carIdx (driver n) \<notin> driversInDangerZone s) nearby)"
proof -
  have f: "filter (\<lambda>n. gapBelowThreshold n \<and> carIdx (driver n) \<notin> driversInDangerZone s)
             (filter (\<lambda>n. riskLevel (driver n) = ''HIGH'') nearby)
           = filter (\<lambda>n. (riskLevel (driver n) = ''HIGH'' \<and> gapBelowThreshold n)
                       \<and> carIdx (driver n) \<notin> driversInDangerZone s) nearby"
    by (induction nearby) auto
  show ?thesis
    by (simp add: displayRaceStatus_def Let_def dangerLoop_eq alertedSlots_alerts f
        del: filter_filter)
qed

lemma statusTick_zone:
  "driversInDangerZone (fst (statusTick cfg s u)) = slotsInZone (nearbyOf u)"
  by (cases u) (simp add: statusTick_def nearbyOf_def displayRaceStatus_zone)

lemma statusTick_alerts:
  "set (alertedSlots (snd (statusTick cfg s u))) = slotsInZone (nearbyOf u) - driversInDangerZone s"
  by (cases u) (auto simp: statusTick_def nearbyOf_def displayRaceStatus_alerts slotsInZone_def)

lemma statusTick_alerts_distinct:
  "distinct (map (\<lambda>n. carIdx (driver n)) (nearbyOf u))
     \<Longrightarrow> distinct (alertedSlots (snd (statusTick cfg s u)))"
  by (cases u) (simp add: statusTick_def nearbyOf_def displayRaceStatus_alerts distinct_map_filter)

lemma stateAfter_snoc:
  "stateAfter cfg s (pre @ [u]) = fst (statusTick cfg (stateAfter cfg s pre) u)"
  by (induction pre arbitrary: s) simp_all

lemma stateAfter_zone:
  "driversInDangerZone (stateAfter cfg s pre)
     = (if pre = [] then driversInDangerZone s else slotsInZone (nearbyOf (last pre)))"
proof (cases pre rule: rev_cases)
  case Nil
  then show ?thesis by simp
next
  case (snoc before u)
  then show ?thesis
    by (simp add: stateAfter_snoc statusTick_zone)
qed

lemma four_updates_alerts:
  "alertedSlots (snd (statusTick cfg (stateAfter cfg initialState []) (update_at 1.0))) = [7]"
  "alertedSlots (snd (statusTick cfg (stateAfter cfg initialState [update_at 1.0]) (update_at 1.2))) = []"
  "alertedSlots (snd (statusTick cfg (stateAfter cfg initialState [update_at 1.0, update_at 1.2])
     (update_at 2.0))) = []"
  "alertedSlots (snd (statusTick cfg
     (stateAfter cfg initialState [update_at 1.0, update_at 1.2, update_at 2.0]) (update_at 0.9))) = [7]"
  by (simp_all add: statusTick_def update_at_def seen_at_def high_risk_driver_def initialState_def
      displayRaceStatus_def gapBelowThreshold_def DANGER_ZONE_THRESHOLD_def)

lemma slotsInZone_iff:
  "c \<notin> slotsInZone nearby \<longleftrightarrow>
     list_all (\<lambda>n. carIdx (driver n) = c \<and> riskLevel (driver n) = ''HIGH''
                  \<longrightarrow> (case gap n of None \<Rightarrow> True | Some g \<Rightarrow> DANGER_ZONE_THRESHOLD \<le> g)) nearby"
proof -
  have g: "gapBelowThreshold n \<longleftrightarrow>
      \<not> (case gap n of None \<Rightarrow> True | Some g \<Rightarrow> DANGER_ZONE_THRESHOLD \<le> g)" for n
    by (simp add: gapBelowThreshold_def not_le split: option.splits)
  show ?thesis
    unfolding slotsInZone_def list_all_iff g by auto
qed

text \<open>
  The updates that \<open>handleTelemetry\<close> hands to \<open>displayRaceStatus\<close> list only the
  analyzed cars that are on track, off the pit road and within 5 s: the same car at the
  same place on the lap, 0.9000000000000008 s ahead as the doubles give it, is listed
  while on track and left out while on the pit road.
\<close>

lemma findNearby_on_track_example:
  "map (\<lambda>n. (carIdx (driver n), gap n))
     (findNearby racing_state close_sample 0.50 (analyzedDrivers racing_state))
   = [(7, Some (2026619832316725 / 2251799813685248))]"
  by code_simp

lemma findNearby_pit_road_example:
  "findNearby racing_state pit_sample 0.50 (analyzedDrivers racing_state) = []"
  by code_simp

lemma three_updates_alerts:
  "alertedSlots (snd (statusTick cfg0 (stateAfter cfg0 initialState []) (update_at 1.0))) = [7]"
  "alertedSlots (snd (statusTick cfg0 (stateAfter cfg0 initialState [update_at 1.0]) empty_update)) = []"
  "alertedSlots (snd (statusTick cfg0 (stateAfter cfg0 initialState [update_at 1.0, empty_update])
     (update_at 1.0))) = [7]"
  by (simp_all add: statusTick_def update_at_def empty_update_def seen_at_def high_risk_driver_def
      initialState_def displayRaceStatus_def gapBelowThreshold_def DANGER_ZONE_THRESHOLD_def)

lemma three_samples_alerts:
  "map alertedSlots
     (snd (telemetryRun sortByGap cfg0 racing_state [close_sample, pit_sample, close_sample]))
   = [[7], [], [7]]"
  by code_simp

lemma close_sample_below_threshold:
  "map (\<lambda>n. (carIdx (driver n), gapBelowThreshold n))
     (findNearby racing_state close_sample 0.50 (analyzedDrivers racing_state)) = [(7, True)]"
  by code_simp

text \<open>
  C5, as the claim states it, fails in its last part: a new alert does not need the gap
  to have risen to the threshold. The tracked set holds only the slots that the latest
  update lists, so a slot that one update leaves out is alerted again when the next lists
  it below the threshold.
  \<^item> Three updates to \<open>displayRaceStatus\<close>, the car of slot 7 at 1.0 s, no car, the car at
    1.0 s again: the alert for slot 7 fires on the first and on the third tick, and no
    update of the three lists a car with a gap at or above 1.5 s.
  \<^item> Three telemetry samples with car 7 at the same place on the lap, 0.9 s ahead of the
    local car, on the pit road in the second sample only: the handler alerts slot 7 on
    the first and on the third sample.
\<close>

theorem danger_alert_realert_counterexample:
  "alertedSlots (snd (statusTick cfg0 (stateAfter cfg0 initialState []) (update_at 1.0))) = [7]
   \<and> alertedSlots (snd (statusTick cfg0 (stateAfter cfg0 initialState [update_at 1.0])
        empty_update)) = []
   \<and> alertedSlots (snd (statusTick cfg0 (stateAfter cfg0 initialState [update_at 1.0, empty_update])
        (update_at 1.0))) = [7]
   \<and> list_all (\<lambda>u. list_all gapBelowThreshold (nearbyOf u))
        [update_at 1.0, empty_update, update_at 1.0]
   \<and> map alertedSlots
        (snd (telemetryRun sortByGap cfg0 racing_state [close_sample, pit_sample, close_sample]))
      = [[7], [], [7]]
   \<and> CarIdxLapDistPct pit_sample = CarIdxLapDistPct close_sample
   \<and> map (\<lambda>n. (carIdx (driver n), gapBelowThreshold n))
        (findNearby racing_state close_sample 0.50 (analyzedDrivers racing_state)) = [(7, True)]"
proof -
  have g: "list_all (\<lambda>u. list_all gapBelowThreshold (nearbyOf u))
        [update_at 1.0, empty_update, update_at 1.0]"
    by (simp add: nearbyOf_def update_at_def empty_update_def seen_at_def gapBelowThreshold_def
        DANGER_ZONE_THRESHOLD_def)
  have p: "CarIdxLapDistPct pit_sample = CarIdxLapDistPct close_sample"
    by (simp add: pit_sample_def)
  from three_updates_alerts g three_samples_alerts p close_sample_below_threshold
  show ?thesis by blast
qed

text \<open>
  C5, amended. Take any sequence of proximity updates \<open>pre @ [u]\<close> handed to
  \<open>displayRaceStatus\<close> one per tick, from any state \<open>s\<close>; \<open>u\<close> is the update of the
  tick looked at and \<open>pre\<close> the ticks before it. A car slot is in the zone of an update
  when the update lists it with risk level HIGH and a gap below 1.5 s (\<open>slotsInZone\<close>).
  It is not in the zone when every entry that the update has for it with risk level HIGH
  has a gap at or above 1.5 s or a gap that is not a number; so also when the update
  does not list the slot at all.
  \<^item> After every tick the tracked set is exactly the set of slots in the zone of that
    tick's update: the set is recomputed and replaced.
  \<^item> A danger alert for slot \<open>c\<close> fires on a tick exactly when \<open>c\<close> is in the zone of
    that tick's update and was not in the tracked set after the tick before.
  \<^item> So no alert fires for a slot that was in the zone on the tick before, and an alert
    on a later tick means that on the tick before the slot was not in the zone (its gap
    at or above the threshold or not a number, or the slot not listed) and now is.
  \<^item> When the update lists each slot once, a tick fires at most one alert per slot.
\<close>

theorem danger_alert_edge_triggered:
  "driversInDangerZone (stateAfter cfg s (pre @ [u])) = slotsInZone (nearbyOf u)
   \<and> driversInDangerZone (stateAfter cfg s pre)
       = (if pre = [] then driversInDangerZone s else slotsInZone (nearbyOf (last pre)))
   \<and> (c \<in> set (alertedSlots (snd (statusTick cfg (stateAfter cfg s pre) u)))
        \<longleftrightarrow> c \<in> slotsInZone (nearbyOf u) \<and> c \<notin> driversInDangerZone (stateAfter cfg s pre))
   \<and> (pre \<noteq> [] \<and> c \<in> slotsInZone (nearbyOf (last pre))
        \<longrightarrow> c \<notin> set (alertedSlots (snd (statusTick cfg (stateAfter cfg s pre) u))))
   \<and> (pre \<noteq> [] \<and> c \<in> set (alertedSlots (snd (statusTick cfg (stateAfter cfg s pre) u)))
        \<longrightarrow> c \<notin> slotsInZone (nearbyOf (last pre)) \<and> c \<in> slotsInZone (nearbyOf u))
   \<and> (c \<notin> slotsInZone (nearbyOf u)
        \<longleftrightarrow> list_all (\<lambda>n. carIdx (driver n) = c \<and> riskLevel (driver n) = ''HIGH''
                   \<longrightarrow> (case gap n of None \<Rightarrow> True | Some g \<Rightarrow> DANGER_ZONE_THRESHOLD \<le> g))
              (nearbyOf u))
   \<and> (distinct (map (\<lambda>n. carIdx (driver n)) (nearbyOf u))
        \<longrightarrow> distinct (alertedSlots (snd (statusTick cfg (stateAfter cfg s pre) u))))"
proof -
  have z: "driversInDangerZone (stateAfter cfg s (pre @ [u])) = slotsInZone (nearbyOf u)"
    by (simp add: stateAfter_snoc statusTick_zone)
  have t: "driversInDangerZone (stateAfter cfg s pre)
       = (if pre = [] then driversInDangerZone s else slotsInZone (nearbyOf (last pre)))"
    by (rule stateAfter_zone)
  have a: "set (alertedSlots (snd (statusTick cfg (stateAfter cfg s pre) u)))
       = slotsInZone (nearbyOf u) - driversInDangerZone (stateAfter cfg s pre)"
    by (rule statusTick_alerts)
  have d: "distinct (map (\<lambda>n. carIdx (driver n)) (nearbyOf u))
        \<longrightarrow> distinct (alertedSlots (snd (statusTick cfg (stateAfter cfg s pre) u)))"
    by (simp add: statusTick_alerts_distinct)
  note i = slotsInZone_iff [of c "nearbyOf u"]
  have e: "c \<in> set (alertedSlots (snd (statusTick cfg (stateAfter cfg s pre) u)))
        \<longleftrightarrow> c \<in> slotsInZone (nearbyOf u) \<and> c \<notin> driversInDangerZone (stateAfter cfg s pre)"
    unfolding a by blast
  have n: "pre \<noteq> [] \<and> c \<in> slotsInZone (nearbyOf (last pre))
        \<longrightarrow> c \<notin> set (alertedSlots (snd (statusTick cfg (stateAfter cfg s pre) u)))"
    unfolding a t by simp
  have r: "pre \<noteq> [] \<and> c \<in> set (alertedSlots (snd (statusTick cfg (stateAfter cfg s pre) u)))
        \<longrightarrow> c \<notin> slotsInZone (nearbyOf (last pre)) \<and> c \<in> slotsInZone (nearbyOf u)"
    unfolding a t by simp
  from z t e n r i d show ?thesis
    by (intro conjI)
qed

theorem danger_alert_edge_triggered_witness:
  "alertedSlots (snd (statusTick cfg0 (stateAfter cfg0 initialState []) (update_at 1.0))) = [7]
   \<and> 7 \<in> slotsInZone (nearbyOf (last [update_at 1.0]))
   \<and> 7 \<notin> set (alertedSlots (snd (statusTick cfg0 (stateAfter cfg0 initialState [update_at 1.0])
              (update_at 1.2))))
   \<and> 7 \<notin> slotsInZone (nearbyOf (last [update_at 1.0, update_at 1.2, update_at 2.0]))
   \<and> 7 \<in> slotsInZone (nearbyOf (update_at 0.9))
   \<and> 7 \<in> set (alertedSlots (snd (statusTick cfg0
              (stateAfter cfg0 initialState [update_at 1.0, update_at 1.2, update_at 2.0])
              (update_at 0.9))))
   \<and> 7 \<notin> slotsInZone (nearbyOf (last [update_at 1.0, empty_update]))
   \<and> 7 \<in> set (alertedSlots (snd (statusTick cfg0
              (stateAfter cfg0 initialState [update_at 1.0, empty_update]) (update_at 1.0))))
   \<and> distinct (alertedSlots (snd (statusTick cfg0
              (stateAfter cfg0 initialState [update_at 1.0, update_at 1.2, update_at 2.0])
              (update_at 0.9))))"
proof -
  have z: "7 \<in> slotsInZone (nearbyOf (update_at 1.0))" "7 \<notin> slotsInZone (nearbyOf (update_at 2.0))"
    "7 \<in> slotsInZone (nearbyOf (update_at 0.9))" "7 \<notin> slotsInZone (nearbyOf empty_update)"
    "distinct (map (\<lambda>n. carIdx (driver n)) (nearbyOf (update_at 0.9)))"
    by (simp_all add: slotsInZone_def nearbyOf_def update_at_def empty_update_def seen_at_def
        high_risk_driver_def gapBelowThreshold_def DANGER_ZONE_THRESHOLD_def)
  from z danger_alert_edge_triggered [of cfg0 initialState "[update_at 1.0]" "update_at 1.2" 7]
    danger_alert_edge_triggered [of cfg0 initialState
      "[update_at 1.0, update_at 1.2, update_at 2.0]" "update_at 0.9" 7]
    danger_alert_edge_triggered [of cfg0 initialState
      "[update_at 1.0, empty_update]" "update_at 1.0" 7]
    four_updates_alerts(1) [of cfg0]
  show ?thesis
    by (simp add: initialState_def)
qed

lemma nearbyEntry_driver:
  "nearbyEntry s telemetry p (idx, analysis) = Some n \<Longrightarrow> driver n = analysis"
  by (auto simp: nearbyEntry_def Let_def split: if_splits option.splits)

lemma findNearby_slots:
  "set (map (\<lambda>n. carIdx (driver n)) (findNearby s telemetry p entries))
     \<subseteq> set (map (\<lambda>e. carIdx (snd e)) entries)"
proof (induction entries)
  case Nil
  then show ?case by simp
next
  case (Cons e rest)
  obtain idx analysis where e: "e = (idx, analysis)" by (cases e)
  show ?case
  proof (cases "nearbyEntry s telemetry p e")
    case None
    with Cons show ?thesis by auto
  next
    case (Some n)
    with e have "driver n = analysis" by (simp add: nearbyEntry_driver)
    with Some Cons e show ?thesis by auto
  qed
qed

lemma findNearby_distinct:
  "distinct (map (\<lambda>e. carIdx (snd e)) entries)
     \<Longrightarrow> distinct (map (\<lambda>n. carIdx (driver n)) (findNearby s telemetry p entries))"
proof (induction entries)
  case Nil
  then show ?case by simp
next
  case (Cons e rest)
  obtain idx analysis where e: "e = (idx, analysis)" by (cases e)
  from Cons have d: "distinct (map (\<lambda>n. carIdx (driver n)) (findNearby s telemetry p rest))"
    by simp
  show ?case
  proof (cases "nearbyEntry s telemetry p e")
    case None
    with d show ?thesis by simp
  next
    case (Some n)
    with e have n: "driver n = analysis" by (simp add: nearbyEntry_driver)
    from Cons.prems e have "carIdx analysis \<notin> set (map (\<lambda>e. carIdx (snd e)) rest)"
      by simp
    with findNearby_slots [of s telemetry p rest]
    have "carIdx analysis \<notin> set (map (\<lambda>n. carIdx (driver n)) (findNearby s telemetry p rest))"
      by blast
    with Some d n show ?thesis by simp
  qed
qed

lemma insertByGap_set: "set (insertByGap a bs) = insert a (set bs)"
  by (induction bs) auto

lemma insertByGap_distinct:
  "distinct (map f (insertByGap a bs)) \<longleftrightarrow> f a \<notin> f ` set bs \<and> distinct (map f bs)"
  by (induction bs) (auto simp: insertByGap_set)

lemma sortByGap_set: "set (sortByGap nearby) = set nearby"
  unfolding sortByGap_def by (induction nearby) (simp_all add: insertByGap_set)

lemma sortByGap_distinct:
  "distinct (map f (sortByGap nearby)) \<longleftrightarrow> distinct (map f nearby)"
proof (induction nearby)
  case Nil
  then show ?case by (simp add: sortByGap_def)
next
  case (Cons a rest)
  have "sortByGap (a # rest) = insertByGap a (sortByGap rest)"
    by (simp add: sortByGap_def)
  with Cons show ?case
    by (simp add: insertByGap_distinct sortByGap_set)
qed

text \<open>
  The updates that \<open>handleTelemetry\<close> builds list each car slot at most once, as long as
  the analyzed drivers are stored one per slot.
\<close>

lemma handleTelemetry_nearby_distinct:
  "distinct (map (\<lambda>e. carIdx (snd e)) (analyzedDrivers s))
     \<Longrightarrow> distinct (map (\<lambda>n. carIdx (driver n))
           (sortByGap (findNearby s telemetry p (analyzedDrivers s))))"
  by (simp add: sortByGap_distinct findNearby_distinct)

subsection \<open>The guard of handleTelemetry\<close>

lemma close_sample_alert:
  "alertedSlots (snd (handleTelemetry sortByGap cfg racing_state close_sample)) = [7]"
  by code_simp

lemma handleTelemetry_guarded:
  "myCarIdx s = - 1 \<or> analyzedDrivers s = [] \<Longrightarrow> handleTelemetry engineSort cfg s telemetry = (s, [])"
  by (auto simp: handleTelemetry_def)

lemma telemetryRun_guarded:
  "myCarIdx s = - 1 \<or> analyzedDrivers s = []
     \<Longrightarrow> telemetryRun engineSort cfg s feed = (s, replicate (length feed) [])"
  by (induction feed) (simp_all add: onTelemetry_def handleTelemetry_guarded)

text \<open>
  C10. While the local car slot is unknown (\<open>myCarIdx = -1\<close>) or no driver has been
  analyzed (the analyzed-driver map is empty), \<open>handleTelemetry\<close> is a no-op, whatever
  sort the engine applies: it returns the state unchanged and puts nothing out, so
  neither a danger nor an incident alert.
  The same holds of the handler of the telemetry event over a whole feed: however many
  samples arrive, the state stays as it is and every sample puts out nothing, so no
  alert fires before the analysis has stored a profile and the local slot is known.
\<close>

theorem handleTelemetry_noop_before_analysis:
  assumes "myCarIdx s = - 1 \<or> analyzedDrivers s = []"
  shows "handleTelemetry engineSort cfg s telemetry = (s, [])
       \<and> onTelemetry engineSort cfg s telemetry = (s, [])
       \<and> telemetryRun engineSort cfg s feed = (s, replicate (length feed) [])
       \<and> (\<forall>out \<in> set (snd (telemetryRun engineSort cfg s feed)). out = [])"
proof -
  have h: "handleTelemetry engineSort cfg s telemetry = (s, [])"
    by (rule handleTelemetry_guarded [OF assms])
  have r: "telemetryRun engineSort cfg s feed = (s, replicate (length feed) [])"
    by (rule telemetryRun_guarded [OF assms])
  from h r show ?thesis
    by (simp add: onTelemetry_def)
qed

theorem handleTelemetry_noop_before_analysis_witness:
  "(myCarIdx (racing_state\<lparr>myCarIdx := - 1\<rparr>) = - 1
      \<or> analyzedDrivers (racing_state\<lparr>myCarIdx := - 1\<rparr>) = [])
   \<and> handleTelemetry sortByGap cfg0 (racing_state\<lparr>myCarIdx := - 1\<rparr>) close_sample
       = (racing_state\<lparr>myCarIdx := - 1\<rparr>, [])
   \<and> (myCarIdx (racing_state\<lparr>analyzedDrivers := []\<rparr>) = - 1
      \<or> analyzedDrivers (racing_state\<lparr>analyzedDrivers := []\<rparr>) = [])
   \<and> telemetryRun sortByGap cfg0 (racing_state\<lparr>analyzedDrivers := []\<rparr>) [close_sample, close_sample]
       = (racing_state\<lparr>analyzedDrivers := []\<rparr>, [[], []])"
proof -
  have a: "myCarIdx (racing_state\<lparr>myCarIdx := - 1\<rparr>) = - 1
      \<or> analyzedDrivers (racing_state\<lparr>myCarIdx := - 1\<rparr>) = []"
    by simp
  have b: "myCarIdx (racing_state\<lparr>analyzedDrivers := []\<rparr>) = - 1
      \<or> analyzedDrivers (racing_state\<lparr>analyzedDrivers := []\<rparr>) = []"
    by simp
  from handleTelemetry_noop_before_analysis [OF a, of sortByGap cfg0 close_sample "[]"]
    handleTelemetry_noop_before_analysis [OF b, of sortByGap cfg0 close_sample "[close_sample, close_sample]"]
    a b
  show ?thesis
    by (simp add: numeral_2_eq_2)
qed


end
